theory Spec2Isabelle
  imports Complex_Main "HOL-Library.AList"
begin

section \<open>File eligibility scan (\<open>getAllFilesToSync\<close> in services/datamanager/builtin/builtin.go)\<close>

subsection \<open>Durations and the injected clock\<close>

text \<open>
  A Go \<open>time.Duration\<close> is a signed 64-bit count of nanoseconds. Durations are modelled
  as \<open>int\<close> with the wrap-around of 64-bit multiplication written out (\<open>wrap64\<close>).
  Instants are nanosecond counts; \<open>clock.Since t\<close> is \<open>clock.Now().Sub(t)\<close>, and
  \<open>Time.Sub\<close> saturates at the smallest and largest Duration.
\<close>

definition maxDuration :: int where
  "maxDuration = 9223372036854775807"

definition minDuration :: int where
  "minDuration = - 9223372036854775808"

definition wrap64 :: "int \<Rightarrow> int" where
  "wrap64 x = (x + 9223372036854775808) mod 18446744073709551616 - 9223372036854775808"

definition Millisecond :: int where
  "Millisecond = 1000000"

definition Since :: "int \<Rightarrow> int \<Rightarrow> int" where
  "Since now t =
     (let d = now - t
      in if d > maxDuration then maxDuration
         else if d < minDuration then minDuration
         else d)"

text \<open>\<open>const defaultFileLastModifiedMillis = 10000.0\<close>\<close>

definition defaultFileLastModifiedMillis :: int where
  "defaultFileLastModifiedMillis = 10000"

subsection \<open>Paths, file information and directory trees\<close>

text \<open>
  Constants of the packages \<open>datasync\<close> and \<open>datacapture\<close> that the scan refers to;
  their declarations are outside the files at hand, so they are parameters.
\<close>

record pkgConsts =
  FailedDir :: string
  FileExt :: string
  InProgressFileExt :: string

text \<open>
  A path is the root string handed to \<open>filepath.Walk\<close> followed by the names of the
  directory entries below it; \<open>filepath.Join path name\<close> appends one name and
  \<open>pathString\<close> renders the path with the separator.
\<close>

type_synonym path = "string list"

definition Join :: "path \<Rightarrow> string \<Rightarrow> path" where
  "Join p name = p @ [name]"

fun pathString :: "path \<Rightarrow> string" where
  "pathString [] = []"
| "pathString [r] = r"
| "pathString (r # n # ns) = pathString ((r @ CHR ''/'' # n) # ns)"

text \<open>
  \<open>filepath.Ext\<close>: scan from the end of the string down to the last separator; the
  extension starts at the first dot met.
\<close>

fun extScan :: "string \<Rightarrow> string \<Rightarrow> string" where
  "extScan [] suf = []"
| "extScan (c # front) suf =
     (if c = CHR ''/'' then []
      else if c = CHR ''.'' then c # suf
      else extScan front (c # suf))"

definition Ext :: "string \<Rightarrow> string" where
  "Ext s = extScan (rev s) []"

record FileInfo =
  Name :: string
  IsDir :: bool
  ModTime :: int

text \<open>
  What \<open>os.Lstat\<close> and the directory listing give for an entry: a non-directory with
  its modification time, a directory with its (sorted) entries, a directory whose
  listing fails, or an entry for which \<open>Lstat\<close> fails.
\<close>

datatype fsnode =
    File string int
  | Dir string "fsnode list"
  | DirUnreadable string
  | LstatFail string

fun nameOf :: "fsnode \<Rightarrow> string" where
  "nameOf (File n t) = n"
| "nameOf (Dir n es) = n"
| "nameOf (DirUnreadable n) = n"
| "nameOf (LstatFail n) = n"

fun infoOf :: "fsnode \<Rightarrow> FileInfo" where
  "infoOf (File n t) = \<lparr>Name = n, IsDir = False, ModTime = t\<rparr>"
| "infoOf (Dir n es) = \<lparr>Name = n, IsDir = True, ModTime = 0\<rparr>"
| "infoOf (DirUnreadable n) = \<lparr>Name = n, IsDir = True, ModTime = 0\<rparr>"
| "infoOf (LstatFail n) = \<lparr>Name = n, IsDir = False, ModTime = 0\<rparr>"

fun lstatFails :: "fsnode \<Rightarrow> bool" where
  "lstatFails (LstatFail n) = True"
| "lstatFails e = False"

subsection \<open>\<open>filepath.Walk\<close>\<close>

text \<open>
  The value a \<open>WalkFunc\<close> returns: \<open>nil\<close>, \<open>filepath.SkipDir\<close> or another error.
  The callback receives the path, the file information (absent when \<open>Lstat\<close> failed),
  whether an error is passed in, and the state it closes over.
\<close>

datatype walkret = RetNil | RetSkipDir | RetErr

type_synonym 's WalkFunc = "path \<Rightarrow> FileInfo option \<Rightarrow> bool \<Rightarrow> 's \<Rightarrow> walkret \<times> 's"

fun walk :: "'s WalkFunc \<Rightarrow> path \<Rightarrow> fsnode \<Rightarrow> 's \<Rightarrow> walkret \<times> 's"
  and walkNames :: "'s WalkFunc \<Rightarrow> path \<Rightarrow> fsnode list \<Rightarrow> 's \<Rightarrow> walkret \<times> 's" where
  "walk fn p (File n t) s = fn p (Some (infoOf (File n t))) False s"
| "walk fn p (LstatFail n) s = fn p None True s"
| "walk fn p (DirUnreadable n) s = fn p (Some (infoOf (DirUnreadable n))) True s"
| "walk fn p (Dir n es) s =
     (case fn p (Some (infoOf (Dir n es))) False s of
        (RetNil, s') \<Rightarrow> walkNames fn p es s'
      | (err1, s') \<Rightarrow> (err1, s'))"
| "walkNames fn p [] s = (RetNil, s)"
| "walkNames fn p (e # es) s =
     (case walk fn (Join p (nameOf e)) e s of
        (err, s') \<Rightarrow>
          if lstatFails e
          then (if err \<noteq> RetNil \<and> err \<noteq> RetSkipDir then (err, s') else walkNames fn p es s')
          else (if err \<noteq> RetNil \<and> (\<not> IsDir (infoOf e) \<or> err \<noteq> RetSkipDir)
                then (err, s') else walkNames fn p es s'))"

definition Walk :: "'s WalkFunc \<Rightarrow> string \<Rightarrow> fsnode \<Rightarrow> 's \<Rightarrow> walkret \<times> 's" where
  "Walk fn rootPath node s =
     (case walk fn [rootPath] node s of
        (err, s') \<Rightarrow> (if err = RetSkipDir then RetNil else err, s'))"

subsection \<open>The scan\<close>

text \<open>
  The callback of \<open>getAllFilesToSync\<close>; its state is the slice \<open>filePaths\<close>. The
  threshold \<open>lastModifiedMillis\<close> is a Go \<open>int\<close> (64 bits), converted to a Duration
  and multiplied by \<open>time.Millisecond\<close> in 64-bit arithmetic. \<open>Walk\<close> never passes an
  absent \<open>info\<close> without an error; the callback would dereference nil there.
\<close>

definition walkFn :: "pkgConsts \<Rightarrow> int \<Rightarrow> int \<Rightarrow> path list WalkFunc" where
  "walkFn K now lastModifiedMillis pth info err filePaths =
     (if err then (RetNil, filePaths)
      else case info of
        None \<Rightarrow> (RetErr, filePaths)
      | Some info \<Rightarrow>
          if IsDir info \<and> Name info = FailedDir K then (RetSkipDir, filePaths)
          else if IsDir info then (RetNil, filePaths)
          else
            let timeSinceMod = Since now (ModTime info);
                timeSinceMod = (if timeSinceMod < 0 then 0 else timeSinceMod);
                isStuckInProgressCaptureFile =
                  (Ext (pathString pth) = InProgressFileExt K \<and>
                   timeSinceMod \<ge> defaultFileLastModifiedMillis * Millisecond);
                isNonCaptureFileThatIsNotBeingWrittenTo =
                  (Ext (pathString pth) \<noteq> InProgressFileExt K \<and>
                   timeSinceMod \<ge> wrap64 (lastModifiedMillis * Millisecond));
                isCompletedCaptureFile = (Ext (pathString pth) = FileExt K)
            in if isCompletedCaptureFile \<or> isStuckInProgressCaptureFile
                  \<or> isNonCaptureFileThatIsNotBeingWrittenTo
               then (RetNil, filePaths @ [pth])
               else (RetNil, filePaths))"

definition getAllFilesToSync :: "pkgConsts \<Rightarrow> int \<Rightarrow> string \<Rightarrow> fsnode \<Rightarrow> int \<Rightarrow> path list" where
  "getAllFilesToSync K now dir tree lastModifiedMillis =
     snd (Walk (walkFn K now lastModifiedMillis) dir tree [])"


subsection \<open>Vocabulary for stating what the scan selects\<close>

text \<open>
  Every non-directory entry of a tree with its path and modification time, whether the
  scan reaches it or not.
\<close>

fun allFiles :: "path \<Rightarrow> fsnode \<Rightarrow> (path \<times> int) list" where
  "allFiles p (File n t) = [(p, t)]"
| "allFiles p (Dir n es) = concat (map (\<lambda>e. allFiles (Join p (nameOf e)) e) es)"
| "allFiles p (DirUnreadable n) = []"
| "allFiles p (LstatFail n) = []"

text \<open>
  The names of the directories of the tree that a path below the root passes through:
  the root's own name and every component but the last.
\<close>

definition dirsAbove :: "fsnode \<Rightarrow> path \<Rightarrow> string list" where
  "dirsAbove tree p = butlast (nameOf tree # tl p)"

definition dirsFrom :: "string \<Rightarrow> nat \<Rightarrow> path \<Rightarrow> string list" where
  "dirsFrom n k q = butlast (n # drop k q)"

text \<open>The age of a file is the time since its modification, never negative.\<close>

definition age :: "int \<Rightarrow> int \<Rightarrow> int" where
  "age now t = max 0 (Since now t)"

text \<open>
  The three predicates of the specification, for a file of a given age (in nanoseconds)
  and a stale threshold in milliseconds.
\<close>

definition eligibleAtAge :: "pkgConsts \<Rightarrow> int \<Rightarrow> path \<Rightarrow> int \<Rightarrow> bool" where
  "eligibleAtAge K staleMillis p a =
     (Ext (pathString p) = FileExt K
      \<or> (Ext (pathString p) = InProgressFileExt K \<and> a \<ge> 10000 * Millisecond)
      \<or> (Ext (pathString p) \<noteq> InProgressFileExt K \<and> a \<ge> staleMillis * Millisecond))"

text \<open>The extensions and directory name used in the specification's example.\<close>

definition exampleConsts :: pkgConsts where
  "exampleConsts =
     \<lparr>FailedDir = ''failed'', FileExt = ''.completed'', InProgressFileExt = ''.inprogress''\<rparr>"

text \<open>The files the walk hands to the eligibility test, and the test as the callback computes it.\<close>

fun scannedFiles :: "pkgConsts \<Rightarrow> path \<Rightarrow> fsnode \<Rightarrow> (path \<times> int) list" where
  "scannedFiles K p (File n t) = [(p, t)]"
| "scannedFiles K p (Dir n es) =
     (if n = FailedDir K then []
      else concat (map (\<lambda>e. scannedFiles K (Join p (nameOf e)) e) es))"
| "scannedFiles K p (DirUnreadable n) = []"
| "scannedFiles K p (LstatFail n) = []"

definition codeEligible :: "pkgConsts \<Rightarrow> int \<Rightarrow> int \<Rightarrow> path \<Rightarrow> int \<Rightarrow> bool" where
  "codeEligible K now ms p t =
     (let a = (if Since now t < 0 then 0 else Since now t) in
      Ext (pathString p) = FileExt K
      \<or> (Ext (pathString p) = InProgressFileExt K \<and> a \<ge> defaultFileLastModifiedMillis * Millisecond)
      \<or> (Ext (pathString p) \<noteq> InProgressFileExt K \<and> a \<ge> wrap64 (ms * Millisecond)))"


section \<open>The data manager service (services/datamanager/builtin/builtin.go)\<close>

subsection \<open>Configuration and state\<close>

text \<open>
  Objects that the code compares by identity or calls methods on (resources, sensors,
  collectors, sync managers, connections, cancel functions) are natural numbers; an
  interface or pointer that may be nil is an \<open>option\<close>. A Go slice that is compared
  with \<open>reflect.DeepEqual\<close> distinguishes nil from empty, so \<open>Tags\<close> is an optional
  list. Floating-point fields are only compared with each other and with zero; they are
  modelled as reals.
\<close>

datatype error =
    ErrNativeConfig
  | ErrDependencyNotFound
  | errCaptureDirectoryConfigurationDisabled
  | ErrNotCloudManaged
  | ErrAcquireConnection
  | ErrNewSyncer
  | ErrBuildCaptureMetadata
  | ErrNoCollectorConstructor
  | ErrAdditionalParams
  | ErrConvertStringMap
  | ErrMkdirAll
  | ErrCollectorConstructor
  | ErrReadings
  | NilDereference
  | NonPositiveTickerInterval

record resourceName =
  API :: string
  ShortName :: string

text \<open>
  \<open>datamanager.DataCaptureConfig\<close>, with the fields that builtin.go reads and writes.
\<close>

record DataCaptureConfig =
  Resource :: "nat option"
  CfgName :: resourceName
  Method :: string
  CaptureFrequencyHz :: real
  CaptureQueueSize :: int
  CaptureBufferSize :: int
  AdditionalParams :: "string \<rightharpoonup> string"
  Disabled :: bool
  Tags :: "string list option"
  CaptureDirectory :: string

record Config =
  CaptureDir :: string
  AdditionalSyncPaths :: "string list"
  SyncIntervalMins :: real
  CaptureDisabled :: bool
  ScheduledSyncDisabled :: bool
  SvcTags :: "string list option"
  ResourceConfigs :: "DataCaptureConfig list"
  FileLastModifiedMillis :: int
  SelectiveSyncerName :: string

record MethodMetadata =
  mmAPI :: string
  MethodName :: string

record resourceMethodMetadata =
  ResourceName :: string
  MethodParams :: string
  MethodMetadata :: MethodMetadata

record collectorAndConfig =
  Collector :: nat
  StoredConfig :: DataCaptureConfig

datatype syncManager = NoopManager | Manager nat

record builtIn =
  captureDir :: string
  captureDisabled :: bool
  collectors :: "(resourceMethodMetadata \<times> collectorAndConfig) list"
  fileLastModifiedMillis :: int
  additionalSyncPaths :: "string list"
  tags :: "string list option"
  syncDisabled :: bool
  syncIntervalMins :: real
  syncRoutineCancelFn :: "nat option"
  syncer :: "syncManager option"
  cloudConnSvc :: "nat option"
  cloudConn :: "nat option"
  syncTicker :: "int option"
  syncSensor :: "nat option"
  selectiveSyncEnabled :: bool
  componentMethodFrequencyHz :: "resourceMethodMetadata \<rightharpoonup> real"

text \<open>
  What the service does to the objects around it, in call order: collectors closed,
  started and flushed, sync managers and connections closed, tags handed to a sync
  manager, files handed to a sync manager, cancel functions called, and messages logged.
  \<open>nextObj\<close> is the identity of the next object to be created.
\<close>

record world =
  nextObj :: nat
  closedCollectors :: "nat list"
  collecting :: "nat list"
  flushed :: "nat list"
  closedSyncers :: "syncManager list"
  closedConns :: "nat list"
  fileTags :: "(syncManager \<times> string list option) list"
  syncedFiles :: "(syncManager \<times> path) list"
  cancelled :: "nat list"
  logs :: "string list"

definition logMsg :: "string \<Rightarrow> world \<Rightarrow> world" where
  "logMsg m w = w\<lparr>logs := logs w @ [m]\<rparr>"

datatype goValue = BoolV bool | IntV int | FloatV real | StringV string | OtherV

record CaptureMetadata =
  ComponentType :: string
  ComponentName :: string
  MetaMethodName :: string

record CollectorParams =
  ParamComponentName :: string
  Target :: string
  QueueSize :: int
  BufferSize :: int

datatype acquired = NotCloudManaged | AcquireFailed | Acquired string nat

text \<open>
  The collaborators of the service whose code is outside the files at hand, as
  parameters: the execution environment, package constants, the collector registry, the
  helpers of \<open>datacapture\<close> and \<open>protoutils\<close>, the cloud connection service, the sync
  manager constructor (the field \<open>syncerConstructor\<close>, set once by \<open>NewBuiltIn\<close>), the
  sensor readings, the clock and the file system.
\<close>

record env =
  trusted :: bool
  viamCaptureDotDir :: string
  ShouldSyncKey :: string
  pkg :: pkgConsts
  fmtParams :: "(string \<rightharpoonup> string) \<Rightarrow> string"
  BuildCaptureMetadata ::
    "string \<Rightarrow> string \<Rightarrow> string \<Rightarrow> (string \<rightharpoonup> string) \<Rightarrow> string list option
       \<Rightarrow> CaptureMetadata option"
  CollectorLookup :: "MethodMetadata \<Rightarrow> (nat option \<Rightarrow> CollectorParams \<Rightarrow> bool) option"
  ConvertStringMapToAnyPBMap :: "(string \<rightharpoonup> string) \<Rightarrow> bool"
  FilePathWithReplacedReservedChars :: "string \<Rightarrow> string"
  MkdirAll :: "string \<Rightarrow> bool"
  AcquireConnection :: "nat \<Rightarrow> acquired"
  syncerConstructor :: "string \<Rightarrow> nat \<Rightarrow> string \<Rightarrow> bool"
  Readings :: "nat \<Rightarrow> error + (string \<rightharpoonup> goValue)"
  clockNow :: int
  lstat :: "string \<Rightarrow> fsnode"

text \<open>
  \<open>resource.Dependencies\<close>: the cloud connection service found under its internal
  name, the resources found by name, and the sensors found by name.
\<close>

record dependencies =
  cloudService :: "nat option"
  Lookup :: "resourceName \<Rightarrow> nat option"
  sensorFromDependencies :: "string \<Rightarrow> nat option"

text \<open>\<open>resource.Config\<close>: \<open>resource.NativeConfig\<close> fails when the attributes are not a \<open>*Config\<close>.\<close>

record resourceConfig =
  ConvertedAttributes :: "Config option"

definition NativeConfig :: "resourceConfig \<Rightarrow> error + Config" where
  "NativeConfig conf =
     (case ConvertedAttributes conf of None \<Rightarrow> Inl ErrNativeConfig | Some c \<Rightarrow> Inr c)"

text \<open>
  Modelled from the spec: \<open>DataCaptureConfig.Equals\<close> is declared outside the files at
  hand; the specification describes an unchanged declaration as deep-equal to the stored
  one.
\<close>

definition Equals :: "DataCaptureConfig \<Rightarrow> DataCaptureConfig \<Rightarrow> bool" where
  "Equals c d = (c = d)"

definition defaultCaptureQueueSize :: int where
  "defaultCaptureQueueSize = 250"

definition defaultCaptureBufferSize :: int where
  "defaultCaptureBufferSize = 4096"

subsection \<open>The selective sync gate\<close>

fun AssertType_bool :: "goValue \<Rightarrow> bool option" where
  "AssertType_bool (BoolV b) = Some b"
| "AssertType_bool v = None"

definition readyToSync :: "env \<Rightarrow> nat \<Rightarrow> world \<Rightarrow> bool \<times> world" where
  "readyToSync E s w =
     (case Readings E s of
        Inl err \<Rightarrow> (False, logMsg ''error getting readings from selective syncer'' w)
      | Inr readings \<Rightarrow>
          (case readings (ShouldSyncKey E) of
             None \<Rightarrow> (False, logMsg ''value for should sync key not present in readings'' w)
           | Some readyToSyncVal \<Rightarrow>
               (case AssertType_bool readyToSyncVal of
                  None \<Rightarrow> (False, logMsg ''error converting should sync key to bool'' w)
                | Some readyToSyncBool \<Rightarrow> (readyToSyncBool, w))))"

text \<open>
  The decision taken on every tick of the scheduler in \<open>uploadData\<close>, once a sync
  manager exists.
\<close>

definition shouldSync :: "env \<Rightarrow> builtIn \<Rightarrow> world \<Rightarrow> bool \<times> world" where
  "shouldSync E svc w =
     (case syncSensor svc of
        Some s \<Rightarrow> if selectiveSyncEnabled svc then readyToSync E s w
                  else (\<not> selectiveSyncEnabled svc, w)
      | None \<Rightarrow> (\<not> selectiveSyncEnabled svc, w))"


subsection \<open>Collectors\<close>

definition closeCollectors :: "builtIn \<Rightarrow> world \<Rightarrow> builtIn \<times> world" where
  "closeCollectors svc w =
     (svc\<lparr>collectors := []\<rparr>,
      w\<lparr>closedCollectors := closedCollectors w @ map (\<lambda>(md, c). Collector c) (collectors svc)\<rparr>)"

definition flushCollectors :: "builtIn \<Rightarrow> world \<Rightarrow> world" where
  "flushCollectors svc w =
     w\<lparr>flushed := flushed w @ map (\<lambda>(md, c). Collector c) (collectors svc)\<rparr>"

definition generateMetadataKey :: "string \<Rightarrow> string \<Rightarrow> string" where
  "generateMetadataKey component method = component @ ''/'' @ method"

definition metadataToAdditionalParamFields :: "string \<rightharpoonup> string" where
  "metadataToAdditionalParamFields =
     map_of [(generateMetadataKey ''rdk:component:board'' ''Analogs'', ''reader_name''),
             (generateMetadataKey ''rdk:component:board'' ''Gpios'', ''pin_name'')]"

text \<open>
  The second half of \<open>initializeOrUpdateCollector\<close>: look the constructor up, validate
  the parameters, create the target directory, construct the collector and start it.
  The sampling interval, method parameters, logger and clock handed to the constructor
  are left out of \<open>CollectorParams\<close>.
\<close>

definition newCollector ::
  "env \<Rightarrow> builtIn \<Rightarrow> resourceMethodMetadata \<Rightarrow> DataCaptureConfig \<Rightarrow> CaptureMetadata \<Rightarrow> world
     \<Rightarrow> (error + collectorAndConfig) \<times> world" where
  "newCollector E svc md config captureMetadata w =
     (case CollectorLookup E (MethodMetadata md) of
        None \<Rightarrow> (Inl ErrNoCollectorConstructor, w)
      | Some collectorConstructor \<Rightarrow>
          let captureQueueSize =
                (if CaptureQueueSize config = 0 then defaultCaptureQueueSize
                 else CaptureQueueSize config);
              captureBufferSize =
                (if CaptureBufferSize config = 0 then defaultCaptureBufferSize
                 else CaptureBufferSize config)
          in if (case metadataToAdditionalParamFields
                        (generateMetadataKey (mmAPI (MethodMetadata md))
                           (MethodName (MethodMetadata md))) of
                   Some additionalParamKey \<Rightarrow> AdditionalParams config additionalParamKey = None
                 | None \<Rightarrow> False)
             then (Inl ErrAdditionalParams, w)
             else if \<not> ConvertStringMapToAnyPBMap E (AdditionalParams config)
             then (Inl ErrConvertStringMap, w)
             else
               let targetDir = FilePathWithReplacedReservedChars E
                     (pathString [captureDir svc, ComponentType captureMetadata,
                                  ComponentName captureMetadata, MetaMethodName captureMetadata])
               in if \<not> MkdirAll E targetDir then (Inl ErrMkdirAll, w)
                  else
                    let params = \<lparr>ParamComponentName = ShortName (CfgName config),
                                   Target = targetDir,
                                   QueueSize = captureQueueSize,
                                   BufferSize = captureBufferSize\<rparr>
                    in if \<not> collectorConstructor (Resource config) params
                       then (Inl ErrCollectorConstructor, w)
                       else (Inr \<lparr>Collector = nextObj w, StoredConfig = config\<rparr>,
                             w\<lparr>nextObj := nextObj w + 1,
                               collecting := collecting w @ [nextObj w]\<rparr>))"

definition initializeOrUpdateCollector ::
  "env \<Rightarrow> builtIn \<Rightarrow> resourceMethodMetadata \<Rightarrow> DataCaptureConfig \<Rightarrow> world
     \<Rightarrow> (error + collectorAndConfig) \<times> world" where
  "initializeOrUpdateCollector E svc md config w =
     (case BuildCaptureMetadata E (API (CfgName config)) (ShortName (CfgName config))
             (Method config) (AdditionalParams config) (Tags config) of
        None \<Rightarrow> (Inl ErrBuildCaptureMetadata, w)
      | Some captureMetadata \<Rightarrow>
          (case map_of (collectors svc) md of
             Some storedCollectorAndConfig \<Rightarrow>
               if Equals (StoredConfig storedCollectorAndConfig) config
               then (Inr storedCollectorAndConfig, w)
               else newCollector E svc md config captureMetadata
                      (w\<lparr>closedCollectors :=
                           closedCollectors w @ [Collector storedCollectorAndConfig]\<rparr>)
           | None \<Rightarrow> newCollector E svc md config captureMetadata w))"

subsection \<open>The sync manager\<close>

definition closeSyncer :: "builtIn \<Rightarrow> world \<Rightarrow> builtIn \<times> world" where
  "closeSyncer svc w =
     (let (svc1, w1) =
            (case syncer svc of
               Some s \<Rightarrow> (svc\<lparr>syncer := None\<rparr>, w\<lparr>closedSyncers := closedSyncers w @ [s]\<rparr>)
             | None \<Rightarrow> (svc, w))
      in case cloudConn svc1 of
           Some c \<Rightarrow> (svc1, w1\<lparr>closedConns := closedConns w1 @ [c]\<rparr>)
         | None \<Rightarrow> (svc1, w1))"

definition initSyncer :: "env \<Rightarrow> builtIn \<Rightarrow> world \<Rightarrow> error option \<times> builtIn \<times> world" where
  "initSyncer E svc w =
     (case cloudConnSvc svc of
        None \<Rightarrow> (Some NilDereference, svc, w)
      | Some c \<Rightarrow>
          (case AcquireConnection E c of
             NotCloudManaged \<Rightarrow>
               (Some ErrNotCloudManaged, svc\<lparr>syncer := Some NoopManager\<rparr>,
                logMsg ''Using no-op sync manager when not cloud managed'' w)
           | AcquireFailed \<Rightarrow> (Some ErrAcquireConnection, svc, w)
           | Acquired identity conn \<Rightarrow>
               if \<not> syncerConstructor E identity conn (captureDir svc)
               then (Some ErrNewSyncer, svc, w)
               else (None,
                     svc\<lparr>syncer := Some (Manager (nextObj w)), cloudConn := Some conn\<rparr>,
                     w\<lparr>nextObj := nextObj w + 1\<rparr>)))"

subsection \<open>Sync passes\<close>

definition toSync :: "env \<Rightarrow> builtIn \<Rightarrow> path list" where
  "toSync E svc =
     foldl (\<lambda>acc ap. acc @ getAllFilesToSync (pkg E) (clockNow E) ap (lstat E ap)
                               (fileLastModifiedMillis svc))
       (getAllFilesToSync (pkg E) (clockNow E) (captureDir svc) (lstat E (captureDir svc))
          (fileLastModifiedMillis svc))
       (additionalSyncPaths svc)"

text \<open>\<open>sync\<close> calls \<open>SyncFile\<close> on the sync manager for every path; on a nil manager that panics.\<close>

definition sync :: "env \<Rightarrow> builtIn \<Rightarrow> world \<Rightarrow> error option \<times> world" where
  "sync E svc w =
     (let w1 = flushCollectors svc w;
          files = toSync E svc
      in case syncer svc of
           None \<Rightarrow> (if files = [] then (None, w1) else (Some NilDereference, w1))
         | Some s \<Rightarrow> (None, w1\<lparr>syncedFiles := syncedFiles w1 @ map (\<lambda>p. (s, p)) files\<rparr>))"


text \<open>One tick of the scheduler loop started by \<open>uploadData\<close>.\<close>

definition tick :: "env \<Rightarrow> builtIn \<Rightarrow> world \<Rightarrow> error option \<times> world" where
  "tick E svc w =
     (case syncer svc of
        Some s \<Rightarrow>
          (case shouldSync E svc w of
             (True, w1) \<Rightarrow> sync E svc w1
           | (False, w1) \<Rightarrow> (None, w1))
      | None \<Rightarrow> (None, w))"

subsection \<open>The scheduler\<close>

definition cancelSyncScheduler :: "builtIn \<Rightarrow> world \<Rightarrow> builtIn \<times> world" where
  "cancelSyncScheduler svc w =
     (case syncRoutineCancelFn svc of
        Some f \<Rightarrow> (svc\<lparr>syncRoutineCancelFn := None\<rparr>, w\<lparr>cancelled := cancelled w @ [f]\<rparr>)
      | None \<Rightarrow> (svc, w))"

text \<open>
  The conversion \<open>time.Duration(intervalMillis)\<close> of a \<open>float64\<close> discards the fraction.
  For a value that does not fit 64 bits Go leaves the result to the implementation; the
  smallest integer is taken here, as amd64 gives it. The rounding of the product
  \<open>60000.0 * intervalMins\<close> in \<open>float64\<close> is not modelled.
\<close>

definition floatToInt64 :: "real \<Rightarrow> int" where
  "floatToInt64 x =
     (let t = (if x \<ge> 0 then \<lfloor>x\<rfloor> else \<lceil>x\<rceil>)
      in if minDuration \<le> t \<and> t \<le> maxDuration then t else minDuration)"

text \<open>The duration handed to \<open>clock.Ticker\<close> at line 572.\<close>

definition tickerDuration :: "real \<Rightarrow> int" where
  "tickerDuration intervalMins = wrap64 (Millisecond * floatToInt64 (60000 * intervalMins))"

text \<open>
  \<open>startSyncScheduler\<close> with \<open>uploadData\<close>: a new cancel function is stored, then the
  ticker is created. The package clock is the real clock (\<open>clk.New()\<close>), whose \<open>Ticker\<close>
  is \<open>time.NewTicker\<close> and panics when the duration is not positive; the panic leaves
  \<open>Reconfigure\<close> with the cancel function stored and no ticker. The loop itself runs
  concurrently and is \<open>tick\<close>.
\<close>

definition startSyncScheduler ::
  "real \<Rightarrow> builtIn \<Rightarrow> world \<Rightarrow> error option \<times> builtIn \<times> world" where
  "startSyncScheduler intervalMins svc w =
     (let svc1 = svc\<lparr>syncRoutineCancelFn := Some (nextObj w)\<rparr>;
          w1 = w\<lparr>nextObj := nextObj w + 1\<rparr>
      in if tickerDuration intervalMins \<le> 0
         then (Some NonPositiveTickerInterval, svc1, w1)
         else (None, svc1\<lparr>syncTicker := Some (tickerDuration intervalMins)\<rparr>, w1))"

subsection \<open>\<open>Reconfigure\<close>\<close>

text \<open>
  \<open>updateDataCaptureConfigs\<close> writes the resolved resource and the capture directory
  into each declaration whose resource is found.
\<close>

fun updateDataCaptureConfigs ::
  "dependencies \<Rightarrow> DataCaptureConfig list \<Rightarrow> string \<Rightarrow> world
     \<Rightarrow> DataCaptureConfig list \<times> world" where
  "updateDataCaptureConfigs deps [] captureDir' w = ([], w)"
| "updateDataCaptureConfigs deps (resConf # rest) captureDir' w =
     (case Lookup deps (CfgName resConf) of
        None \<Rightarrow>
          (case updateDataCaptureConfigs deps rest captureDir'
                  (logMsg ''failed to lookup resource'' w) of
             (rest', w') \<Rightarrow> (resConf # rest', w'))
      | Some res \<Rightarrow>
          (case updateDataCaptureConfigs deps rest captureDir' w of
             (rest', w') \<Rightarrow>
               (resConf\<lparr>Resource := Some res, CaptureDirectory := captureDir'\<rparr> # rest', w')))"

definition componentMethodMetadataOf :: "env \<Rightarrow> DataCaptureConfig \<Rightarrow> resourceMethodMetadata" where
  "componentMethodMetadataOf E resConf =
     \<lparr>ResourceName = ShortName (CfgName resConf),
      MethodParams = fmtParams E (AdditionalParams resConf),
      MethodMetadata = \<lparr>mmAPI = API (CfgName resConf), MethodName = Method resConf\<rparr>\<rparr>"

text \<open>The body of the loop over the declarations (lines 441 to 485).\<close>

definition collectorLoopBody ::
  "env \<Rightarrow> Config \<Rightarrow> DataCaptureConfig
     \<Rightarrow> builtIn \<times> (resourceMethodMetadata \<times> collectorAndConfig) list \<times> world
     \<Rightarrow> builtIn \<times> (resourceMethodMetadata \<times> collectorAndConfig) list \<times> world" where
  "collectorLoopBody E svcConfig resConf st =
     (case st of (svc, newCollectors, w) \<Rightarrow>
        if Resource resConf = None then (svc, newCollectors, w)
        else
          let componentMethodMetadata = componentMethodMetadataOf E resConf;
              w1 = (case componentMethodFrequencyHz svc componentMethodMetadata of
                      None \<Rightarrow> logMsg ''capture frequency is set'' w
                    | Some hz \<Rightarrow>
                        if CaptureFrequencyHz resConf \<noteq> hz
                        then logMsg ''capture frequency is set'' w else w);
              svc1 = svc\<lparr>componentMethodFrequencyHz :=
                           (componentMethodFrequencyHz svc)
                             (componentMethodMetadata \<mapsto> CaptureFrequencyHz resConf)\<rparr>
          in if \<not> Disabled resConf \<and> CaptureFrequencyHz resConf > 0
             then
               (case initializeOrUpdateCollector E svc1 componentMethodMetadata
                       (resConf\<lparr>Tags := SvcTags svcConfig\<rparr>) w1 of
                  (Inl err, w2) \<Rightarrow>
                    (svc1, newCollectors, logMsg ''failed to initialize or update collector'' w2)
                | (Inr newCollectorAndConfig, w2) \<Rightarrow>
                    (svc1,
                     AList.update componentMethodMetadata newCollectorAndConfig newCollectors,
                     w2))
             else (svc1, newCollectors, w1))"

definition collectorLoop ::
  "env \<Rightarrow> Config \<Rightarrow> DataCaptureConfig list
     \<Rightarrow> builtIn \<times> (resourceMethodMetadata \<times> collectorAndConfig) list \<times> world
     \<Rightarrow> builtIn \<times> (resourceMethodMetadata \<times> collectorAndConfig) list \<times> world" where
  "collectorLoop E svcConfig resourceConfigs st =
     foldl (\<lambda>st resConf. collectorLoopBody E svcConfig resConf st) st resourceConfigs"

text \<open>Lines 488 to 493: close the collectors that are not in the new map.\<close>

definition closeRemoved ::
  "(resourceMethodMetadata \<times> collectorAndConfig) list
     \<Rightarrow> (resourceMethodMetadata \<times> collectorAndConfig) list \<Rightarrow> world \<Rightarrow> world" where
  "closeRemoved old newCollectors w =
     w\<lparr>closedCollectors := closedCollectors w @
          map (\<lambda>(md, c). Collector c)
            (filter (\<lambda>(md, c). map_of newCollectors md = None) old)\<rparr>"

text \<open>Lines 425 to 495: capture directory, capture switch and collectors.\<close>

definition reconfigureCapture ::
  "env \<Rightarrow> Config \<Rightarrow> DataCaptureConfig list \<Rightarrow> builtIn \<Rightarrow> world \<Rightarrow> builtIn \<times> world" where
  "reconfigureCapture E svcConfig resourceConfigs svc w =
     (let svc1 = (if CaptureDir svcConfig \<noteq> [] then svc\<lparr>captureDir := CaptureDir svcConfig\<rparr>
                  else svc);
          svc2 = (if CaptureDir svcConfig = [] then svc1\<lparr>captureDir := viamCaptureDotDir E\<rparr>
                  else svc1);
          svc3 = svc2\<lparr>captureDisabled := CaptureDisabled svcConfig\<rparr>;
          (svc4, w4) = (if captureDisabled svc3 then closeCollectors svc3 w else (svc3, w));
          (svc5, newCollectors, w5) =
            (if \<not> captureDisabled svc4
             then collectorLoop E svcConfig resourceConfigs (svc4, [], w4)
             else (svc4, [], w4));
          w6 = closeRemoved (collectors svc5) newCollectors w5
      in (svc5\<lparr>collectors := newCollectors,
                additionalSyncPaths := AdditionalSyncPaths svcConfig\<rparr>, w6))"

text \<open>Lines 502 to 515: the selective sync sensor.\<close>

definition reconfigureSelectiveSync ::
  "dependencies \<Rightarrow> Config \<Rightarrow> builtIn \<Rightarrow> world \<Rightarrow> builtIn \<times> world" where
  "reconfigureSelectiveSync deps svcConfig svc w =
     (if SelectiveSyncerName svcConfig \<noteq> []
      then
        (case sensorFromDependencies deps (SelectiveSyncerName svcConfig) of
           None \<Rightarrow>
             (svc\<lparr>selectiveSyncEnabled := True, syncSensor := None\<rparr>,
              logMsg ''unable to initialize selective syncer; will not sync at all until fixed or removed from config'' w)
         | Some s \<Rightarrow> (svc\<lparr>selectiveSyncEnabled := True, syncSensor := Some s\<rparr>, w))
      else (svc\<lparr>selectiveSyncEnabled := False, syncSensor := None\<rparr>, w))"

text \<open>Lines 526 to 535: build the sync manager if there is none, rebuild it if the
  cloud connection service changed.\<close>

definition ensureSyncer ::
  "env \<Rightarrow> bool \<Rightarrow> builtIn \<Rightarrow> world \<Rightarrow> error option \<times> builtIn \<times> world" where
  "ensureSyncer E reinitSyncer svc w =
     (if syncer svc = None then initSyncer E svc w
      else if reinitSyncer
      then (case closeSyncer svc w of (svc1, w1) \<Rightarrow> initSyncer E svc1 w1)
      else (None, svc, w))"

text \<open>Lines 526 to 537: the branch taken when scheduled sync is enabled with a nonzero
  interval.\<close>

definition startScheduledSync ::
  "env \<Rightarrow> bool \<Rightarrow> builtIn \<Rightarrow> world \<Rightarrow> error option \<times> builtIn \<times> world" where
  "startScheduledSync E reinitSyncer svc w =
     (case ensureSyncer E reinitSyncer svc w of
        (Some err, svc1, w1) \<Rightarrow> (Some err, svc1, w1)
      | (None, svc1, w1) \<Rightarrow>
          (case syncer svc1 of
             None \<Rightarrow> (Some NilDereference, svc1, w1)
           | Some s \<Rightarrow>
               startSyncScheduler (syncIntervalMins svc1) svc1
                 (w1\<lparr>fileTags := fileTags w1 @ [(s, tags svc1)]\<rparr>)))"

text \<open>Lines 539 to 543: the branch taken when scheduled sync is off.\<close>

definition stopScheduledSync :: "builtIn \<Rightarrow> world \<Rightarrow> error option \<times> builtIn \<times> world" where
  "stopScheduledSync svc w =
     (case closeSyncer (svc\<lparr>syncTicker := None\<rparr>) w of (svc1, w1) \<Rightarrow> (None, svc1, w1))"

text \<open>Lines 517 to 547: sync settings, sync manager and scheduler.\<close>

definition syncSettingsChanged :: "Config \<Rightarrow> int \<Rightarrow> builtIn \<Rightarrow> bool" where
  "syncSettingsChanged svcConfig fileLastModifiedMillis' svc =
     (syncDisabled svc \<noteq> ScheduledSyncDisabled svcConfig
      \<or> syncIntervalMins svc \<noteq> SyncIntervalMins svcConfig
      \<or> tags svc \<noteq> SvcTags svcConfig
      \<or> fileLastModifiedMillis svc \<noteq> fileLastModifiedMillis')"

definition reconfigureSync ::
  "env \<Rightarrow> Config \<Rightarrow> bool \<Rightarrow> int \<Rightarrow> builtIn \<Rightarrow> world \<Rightarrow> error option \<times> builtIn \<times> world" where
  "reconfigureSync E svcConfig reinitSyncer fileLastModifiedMillis' svc w =
     (if syncSettingsChanged svcConfig fileLastModifiedMillis' svc
      then
        (case cancelSyncScheduler
                (svc\<lparr>syncDisabled := ScheduledSyncDisabled svcConfig,
                      syncIntervalMins := SyncIntervalMins svcConfig,
                      tags := SvcTags svcConfig,
                      fileLastModifiedMillis := fileLastModifiedMillis'\<rparr>) w of
           (svc1, w1) \<Rightarrow>
             if \<not> syncDisabled svc1 \<and> syncIntervalMins svc1 \<noteq> 0
             then startScheduledSync E reinitSyncer svc1 w1
             else stopScheduledSync svc1 w1)
      else (None, svc, w))"

definition Reconfigure ::
  "env \<Rightarrow> dependencies \<Rightarrow> resourceConfig \<Rightarrow> builtIn \<Rightarrow> world
     \<Rightarrow> error option \<times> builtIn \<times> world" where
  "Reconfigure E deps conf svc w =
     (case NativeConfig conf of
        Inl err \<Rightarrow> (Some err, svc, w)
      | Inr svcConfig \<Rightarrow>
          (case cloudService deps of
             None \<Rightarrow> (Some ErrDependencyNotFound, svc, w)
           | Some cloudConnSvc' \<Rightarrow>
               let reinitSyncer = (Some cloudConnSvc' \<noteq> cloudConnSvc svc);
                   svc1 = svc\<lparr>cloudConnSvc := Some cloudConnSvc'\<rparr>;
                   (resourceConfigs, w1) =
                     updateDataCaptureConfigs deps (ResourceConfigs svcConfig)
                       (CaptureDir svcConfig) w
               in if \<not> trusted E \<and> CaptureDir svcConfig \<noteq> []
                     \<and> CaptureDir svcConfig \<noteq> viamCaptureDotDir E
                  then (Some errCaptureDirectoryConfigurationDisabled, svc1, w1)
                  else
                    let (svc2, w2) = reconfigureCapture E svcConfig resourceConfigs svc1 w1;
                        fileLastModifiedMillis' =
                          (if FileLastModifiedMillis svcConfig \<le> 0
                           then defaultFileLastModifiedMillis
                           else FileLastModifiedMillis svcConfig);
                        (svc3, w3) = reconfigureSelectiveSync deps svcConfig svc2 w2
                    in reconfigureSync E svcConfig reinitSyncer fileLastModifiedMillis' svc3 w3))"

subsection \<open>\<open>NewBuiltIn\<close> and \<open>Close\<close>\<close>

text \<open>The struct literal of \<open>NewBuiltIn\<close>; fields it does not name are zero.\<close>

definition initialBuiltIn :: "env \<Rightarrow> builtIn" where
  "initialBuiltIn E =
     \<lparr>captureDir = viamCaptureDotDir E,
      captureDisabled = False,
      collectors = [],
      fileLastModifiedMillis = defaultFileLastModifiedMillis,
      additionalSyncPaths = [],
      tags = Some [],
      syncDisabled = False,
      syncIntervalMins = 0,
      syncRoutineCancelFn = None,
      syncer = None,
      cloudConnSvc = None,
      cloudConn = None,
      syncTicker = None,
      syncSensor = None,
      selectiveSyncEnabled = False,
      componentMethodFrequencyHz = Map.empty\<rparr>"

definition NewBuiltIn ::
  "env \<Rightarrow> dependencies \<Rightarrow> resourceConfig \<Rightarrow> world \<Rightarrow> (error + builtIn) \<times> world" where
  "NewBuiltIn E deps conf w =
     (case Reconfigure E deps conf (initialBuiltIn E) w of
        (Some err, svc', w') \<Rightarrow> (Inl err, w')
      | (None, svc', w') \<Rightarrow> (Inr svc', w'))"


section \<open>The reconfigurable client connection (package grpc)\<close>

text \<open>
  The handle holds a read/write lock and one optional channel. Channels are numbers; what
  a channel answers to a call is a parameter, and the calls that reach a channel are
  recorded. Of \<open>sync.RWMutex\<close> the model keeps whether a writer holds the lock, how many
  readers hold it and how many writers wait for it: \<open>RLock\<close> waits while a writer holds
  the lock or waits for it, \<open>Lock\<close> waits while anyone holds it.
\<close>

datatype rpcError = ErrorString string

record RWMutex =
  writer :: bool
  readers :: nat
  waitingWriters :: nat

record ReconfigurableClientConn =
  connMu :: RWMutex
  conn :: "nat option"

record channels =
  chanInvoke :: "nat \<Rightarrow> string \<Rightarrow> rpcError option"
  chanNewStream :: "nat \<Rightarrow> string \<Rightarrow> rpcError + nat"
  chanClose :: "nat \<Rightarrow> rpcError option"

record rpcWorld =
  delegated :: "(nat \<times> string) list"
  chanClosed :: "nat list"

subsection \<open>The calls when nothing else runs\<close>

definition Invoke ::
  "channels \<Rightarrow> ReconfigurableClientConn \<Rightarrow> string \<Rightarrow> rpcWorld \<Rightarrow> rpcError option \<times> rpcWorld" where
  "Invoke C c m w =
     (case conn c of
        None \<Rightarrow> (Some (ErrorString ''not connected''), w)
      | Some ch \<Rightarrow> (chanInvoke C ch m, w\<lparr>delegated := delegated w @ [(ch, m)]\<rparr>))"

definition NewStream ::
  "channels \<Rightarrow> ReconfigurableClientConn \<Rightarrow> string \<Rightarrow> rpcWorld \<Rightarrow> (rpcError + nat) \<times> rpcWorld" where
  "NewStream C c m w =
     (case conn c of
        None \<Rightarrow> (Inl (ErrorString ''not connected''), w)
      | Some ch \<Rightarrow> (chanNewStream C ch m, w\<lparr>delegated := delegated w @ [(ch, m)]\<rparr>))"

definition ReplaceConn :: "ReconfigurableClientConn \<Rightarrow> nat option \<Rightarrow> ReconfigurableClientConn" where
  "ReplaceConn c newConn = c\<lparr>conn := newConn\<rparr>"

definition ClientConnClose ::
  "channels \<Rightarrow> ReconfigurableClientConn \<Rightarrow> rpcWorld
     \<Rightarrow> rpcError option \<times> ReconfigurableClientConn \<times> rpcWorld" where
  "ClientConnClose C c w =
     (case conn c of
        None \<Rightarrow> (None, c, w)
      | Some ch \<Rightarrow> (chanClose C ch, c\<lparr>conn := None\<rparr>, w\<lparr>chanClosed := chanClosed w @ [ch]\<rparr>))"

text \<open>The zero value of the handle, as declared with \<open>var\<close> or \<open>&ReconfigurableClientConn{}\<close>.\<close>

definition zeroClientConn :: ReconfigurableClientConn where
  "zeroClientConn = \<lparr>connMu = \<lparr>writer = False, readers = 0, waitingWriters = 0\<rparr>, conn = None\<rparr>"

subsection \<open>The calls statement by statement\<close>

text \<open>
  Other goroutines run between the statements of a call, so each statement is one step
  on the shared handle. A step is \<open>None\<close> when the statement cannot proceed: the call
  waits. The positions of \<open>Invoke\<close> and \<open>NewStream\<close>: before \<open>RLock\<close>, before reading
  \<open>c.conn\<close>, before \<open>RUnlock\<close> with the channel read, before the nil check, and returned.
\<close>

datatype 'r callPc = AtRLock | AtRead | AtRUnlock "nat option" | AtCheck "nat option" | Returned 'r

fun snapshotStep ::
  "ReconfigurableClientConn \<Rightarrow> 'r callPc \<Rightarrow> (ReconfigurableClientConn \<times> 'r callPc) option" where
  "snapshotStep c AtRLock =
     (if writer (connMu c) \<or> waitingWriters (connMu c) > 0 then None
      else Some (c\<lparr>connMu := (connMu c)\<lparr>readers := readers (connMu c) + 1\<rparr>\<rparr>, AtRead))"
| "snapshotStep c AtRead = Some (c, AtRUnlock (conn c))"
| "snapshotStep c (AtRUnlock snap) =
     Some (c\<lparr>connMu := (connMu c)\<lparr>readers := readers (connMu c) - 1\<rparr>\<rparr>, AtCheck snap)"
| "snapshotStep c (AtCheck snap) = Some (c, AtCheck snap)"
| "snapshotStep c (Returned r) = Some (c, Returned r)"

fun invokeStep ::
  "channels \<Rightarrow> string \<Rightarrow> ReconfigurableClientConn \<times> rpcWorld \<times> (rpcError option) callPc
     \<Rightarrow> (ReconfigurableClientConn \<times> rpcWorld \<times> (rpcError option) callPc) option" where
  "invokeStep C m (c, w, AtCheck None) =
     Some (c, w, Returned (Some (ErrorString ''not connected'')))"
| "invokeStep C m (c, w, AtCheck (Some ch)) =
     Some (c, w\<lparr>delegated := delegated w @ [(ch, m)]\<rparr>, Returned (chanInvoke C ch m))"
| "invokeStep C m (c, w, pc) =
     (case snapshotStep c pc of None \<Rightarrow> None | Some (c', pc') \<Rightarrow> Some (c', w, pc'))"

fun newStreamStep ::
  "channels \<Rightarrow> string \<Rightarrow> ReconfigurableClientConn \<times> rpcWorld \<times> (rpcError + nat) callPc
     \<Rightarrow> (ReconfigurableClientConn \<times> rpcWorld \<times> (rpcError + nat) callPc) option" where
  "newStreamStep C m (c, w, AtCheck None) =
     Some (c, w, Returned (Inl (ErrorString ''not connected'')))"
| "newStreamStep C m (c, w, AtCheck (Some ch)) =
     Some (c, w\<lparr>delegated := delegated w @ [(ch, m)]\<rparr>, Returned (chanNewStream C ch m))"
| "newStreamStep C m (c, w, pc) =
     (case snapshotStep c pc of None \<Rightarrow> None | Some (c', pc') \<Rightarrow> Some (c', w, pc'))"

text \<open>
  The positions of \<open>Close\<close>: before \<open>Lock\<close>, waiting for the lock, before the nil check,
  before closing the removed channel, before the deferred \<open>Unlock\<close> with the result, and
  returned. The channel is closed while the write lock is held.
\<close>

datatype closePc =
  AtLock | AtLockWait | AtNilCheck | AtChanClose nat | AtUnlock "rpcError option"
  | CloseReturned "rpcError option"

fun closeStep ::
  "channels \<Rightarrow> ReconfigurableClientConn \<times> rpcWorld \<times> closePc
     \<Rightarrow> (ReconfigurableClientConn \<times> rpcWorld \<times> closePc) option" where
  "closeStep C (c, w, AtLock) =
     (if \<not> writer (connMu c) \<and> readers (connMu c) = 0
      then Some (c\<lparr>connMu := (connMu c)\<lparr>writer := True\<rparr>\<rparr>, w, AtNilCheck)
      else Some (c\<lparr>connMu := (connMu c)\<lparr>waitingWriters := waitingWriters (connMu c) + 1\<rparr>\<rparr>,
                 w, AtLockWait))"
| "closeStep C (c, w, AtLockWait) =
     (if \<not> writer (connMu c) \<and> readers (connMu c) = 0
      then Some (c\<lparr>connMu := (connMu c)\<lparr>writer := True,
                                           waitingWriters := waitingWriters (connMu c) - 1\<rparr>\<rparr>,
                 w, AtNilCheck)
      else None)"
| "closeStep C (c, w, AtNilCheck) =
     (case conn c of
        None \<Rightarrow> Some (c, w, AtUnlock None)
      | Some ch \<Rightarrow> Some (c\<lparr>conn := None\<rparr>, w, AtChanClose ch))"
| "closeStep C (c, w, AtChanClose ch) =
     Some (c, w\<lparr>chanClosed := chanClosed w @ [ch]\<rparr>, AtUnlock (chanClose C ch))"
| "closeStep C (c, w, AtUnlock r) =
     Some (c\<lparr>connMu := (connMu c)\<lparr>writer := False\<rparr>\<rparr>, w, CloseReturned r)"
| "closeStep C (c, w, CloseReturned r) = Some (c, w, CloseReturned r)"

text \<open>Running a number of steps of one call; \<open>None\<close> when a step has to wait.\<close>

fun runSteps :: "nat \<Rightarrow> ('s \<Rightarrow> 's option) \<Rightarrow> 's \<Rightarrow> 's option" where
  "runSteps 0 step s = Some s"
| "runSteps (Suc n) step s = (case step s of None \<Rightarrow> None | Some s' \<Rightarrow> runSteps n step s')"

section \<open>Vocabulary for the properties of the service\<close>

text \<open>Two service states agree on everything but the sync settings, the scheduler, the
  sync manager and its connection.\<close>

definition sameCapture :: "builtIn \<Rightarrow> builtIn \<Rightarrow> bool" where
  "sameCapture a b =
     (selectiveSyncEnabled a = selectiveSyncEnabled b \<and> syncSensor a = syncSensor b
      \<and> collectors a = collectors b \<and> captureDir a = captureDir b
      \<and> additionalSyncPaths a = additionalSyncPaths b
      \<and> captureDisabled a = captureDisabled b \<and> cloudConnSvc a = cloudConnSvc b
      \<and> componentMethodFrequencyHz a = componentMethodFrequencyHz b)"

text \<open>Two service states agree on the sync settings.\<close>

definition sameSyncSettings :: "builtIn \<Rightarrow> builtIn \<Rightarrow> bool" where
  "sameSyncSettings a b =
     (syncDisabled a = syncDisabled b \<and> syncIntervalMins a = syncIntervalMins b
      \<and> tags a = tags b \<and> fileLastModifiedMillis a = fileLastModifiedMillis b)"

text \<open>Two service states agree on the sync settings, the scheduler, the sync manager,
  its connection and the cloud connection service.\<close>

definition sameSync :: "builtIn \<Rightarrow> builtIn \<Rightarrow> bool" where
  "sameSync a b =
     (sameSyncSettings a b \<and> syncer a = syncer b \<and> cloudConn a = cloudConn b
      \<and> cloudConnSvc a = cloudConnSvc b \<and> syncRoutineCancelFn a = syncRoutineCancelFn b
      \<and> syncTicker a = syncTicker b)"

text \<open>The second world differs from the first only by messages appended to the log.\<close>

definition onlyLogged :: "world \<Rightarrow> world \<Rightarrow> bool" where
  "onlyLogged w w' =
     (nextObj w' = nextObj w \<and> closedCollectors w' = closedCollectors w
      \<and> collecting w' = collecting w \<and> flushed w' = flushed w
      \<and> closedSyncers w' = closedSyncers w \<and> closedConns w' = closedConns w
      \<and> fileTags w' = fileTags w \<and> syncedFiles w' = syncedFiles w
      \<and> cancelled w' = cancelled w \<and> (\<exists>l. logs w' = logs w @ l))"


text \<open>Two worlds agree on the collectors closed, started and flushed.\<close>

definition sameCollectorEvents :: "world \<Rightarrow> world \<Rightarrow> bool" where
  "sameCollectorEvents a b =
     (closedCollectors a = closedCollectors b \<and> collecting a = collecting b
      \<and> flushed a = flushed b)"

text \<open>
  Every capture task of a state was built from a declaration that reaches the
  construction of a collector: its resource is resolved, it is enabled with a positive
  frequency, and its capture metadata can be built.
\<close>

definition tasksWellFormed :: "env \<Rightarrow> builtIn \<Rightarrow> bool" where
  "tasksWellFormed E svc =
     (\<forall>(md, cc) \<in> set (collectors svc).
        Resource (StoredConfig cc) \<noteq> None
        \<and> \<not> Disabled (StoredConfig cc)
        \<and> CaptureFrequencyHz (StoredConfig cc) > 0
        \<and> BuildCaptureMetadata E (API (CfgName (StoredConfig cc)))
              (ShortName (CfgName (StoredConfig cc))) (Method (StoredConfig cc))
              (AdditionalParams (StoredConfig cc)) (Tags (StoredConfig cc)) \<noteq> None)"

text \<open>
  A declaration as \<open>Reconfigure\<close> hands it to \<open>initializeOrUpdateCollector\<close>: with the
  resolved resource, the capture directory and the service-level tags written into it.
\<close>

definition resolvedDeclaration ::
  "dependencies \<Rightarrow> Config \<Rightarrow> DataCaptureConfig \<Rightarrow> DataCaptureConfig" where
  "resolvedDeclaration deps svcConfig d =
     d\<lparr>Resource := Lookup deps (CfgName d),
       CaptureDirectory := CaptureDir svcConfig,
       Tags := SvcTags svcConfig\<rparr>"

text \<open>
  A resolved declaration that \<open>Reconfigure\<close> finds unchanged in a task map: it reaches
  \<open>initializeOrUpdateCollector\<close>, its metadata can be built, and the stored declaration
  of its task equals it once the service tags are written into it.
\<close>

definition unchangedDeclaration :: "env \<Rightarrow> Config \<Rightarrow> (resourceMethodMetadata \<times> collectorAndConfig) list
    \<Rightarrow> DataCaptureConfig \<Rightarrow> bool" where
  "unchangedDeclaration E cfg C d =
     (Resource d \<noteq> None \<and> \<not> Disabled d \<and> CaptureFrequencyHz d > 0
      \<and> BuildCaptureMetadata E (API (CfgName d)) (ShortName (CfgName d))
             (Method d) (AdditionalParams d) (SvcTags cfg) \<noteq> None
      \<and> (\<exists>cc. map_of C (componentMethodMetadataOf E d) = Some cc
               \<and> Equals (StoredConfig cc) (d\<lparr>Tags := SvcTags cfg\<rparr>)))"


subsection \<open>A concrete environment for examples\<close>

definition exampleEnv :: env where
  "exampleEnv =
     \<lparr>trusted = False,
      viamCaptureDotDir = ''/home/viam/.viam/capture'',
      ShouldSyncKey = ''should_sync'',
      pkg = exampleConsts,
      fmtParams = (\<lambda>m. ''map[]''),
      BuildCaptureMetadata =
        (\<lambda>api name method params tgs.
           Some \<lparr>ComponentType = api, ComponentName = name, MetaMethodName = method\<rparr>),
      CollectorLookup = (\<lambda>mm. Some (\<lambda>res params. True)),
      ConvertStringMapToAnyPBMap = (\<lambda>m. True),
      FilePathWithReplacedReservedChars = (\<lambda>s. s),
      MkdirAll = (\<lambda>d. True),
      AcquireConnection = (\<lambda>c. Acquired ''part'' (c + 1000)),
      syncerConstructor = (\<lambda>identity c d. True),
      Readings = (\<lambda>s. Inr Map.empty),
      clockNow = 0,
      lstat = (\<lambda>d. LstatFail d)\<rparr>"

definition exampleDeps :: dependencies where
  "exampleDeps =
     \<lparr>cloudService = Some 1,
      Lookup = (\<lambda>n. if ShortName n = ''arm1'' then Some 7 else None),
      sensorFromDependencies = (\<lambda>n. if n = ''gate'' then Some 9 else None)\<rparr>"

definition exampleDeclaration :: DataCaptureConfig where
  "exampleDeclaration =
     \<lparr>Resource = None,
      CfgName = \<lparr>API = ''rdk:component:arm'', ShortName = ''arm1''\<rparr>,
      Method = ''EndPosition'',
      CaptureFrequencyHz = 10,
      CaptureQueueSize = 0,
      CaptureBufferSize = 0,
      AdditionalParams = Map.empty,
      Disabled = False,
      Tags = None,
      CaptureDirectory = []\<rparr>"

definition exampleConfig :: Config where
  "exampleConfig =
     \<lparr>CaptureDir = [],
      AdditionalSyncPaths = [],
      SyncIntervalMins = 0,
      CaptureDisabled = False,
      ScheduledSyncDisabled = False,
      SvcTags = None,
      ResourceConfigs = [],
      FileLastModifiedMillis = 0,
      SelectiveSyncerName = []\<rparr>"

definition exampleWorld :: world where
  "exampleWorld =
     \<lparr>nextObj = 100, closedCollectors = [], collecting = [], flushed = [],
      closedSyncers = [], closedConns = [], fileTags = [], syncedFiles = [],
      cancelled = [], logs = []\<rparr>"

definition exampleChannels :: channels where
  "exampleChannels =
     \<lparr>chanInvoke = (\<lambda>ch m. None), chanNewStream = (\<lambda>ch m. Inr 0), chanClose = (\<lambda>ch. None)\<rparr>"

section \<open>Properties of the file eligibility scan\<close>

lemma walk_scan:
  "walk (walkFn K now ms) p node acc =
     (if (\<exists>n es. node = Dir n es \<and> n = FailedDir K) then RetSkipDir else RetNil,
      acc @ map fst (filter (\<lambda>(q, t). codeEligible K now ms q t) (scannedFiles K p node)))"
  "walkNames (walkFn K now ms) p es acc =
     (RetNil, acc @ map fst (filter (\<lambda>(q, t). codeEligible K now ms q t)
        (concat (map (\<lambda>e. scannedFiles K (Join p (nameOf e)) e) es))))"
proof (induction "walkFn K now ms" p node acc and "walkFn K now ms" p es acc
       rule: walk_walkNames.induct)
  case (1 p n t s)
  then show ?case by (simp add: walkFn_def codeEligible_def Let_def)
next
  case (2 p n s)
  then show ?case by (simp add: walkFn_def)
next
  case (3 p n s)
  then show ?case by (simp add: walkFn_def)
next
  case (4 p n es s)
  show ?case
  proof (cases "n = FailedDir K")
    case True
    then show ?thesis by (simp add: walkFn_def)
  next
    case False
    have "walkFn K now ms p (Some (infoOf (Dir n es))) False s = (RetNil, s)"
      using False by (simp add: walkFn_def)
    with 4 False show ?thesis by simp
  qed
next
  case (5 p s)
  then show ?case by simp
next
  case (6 p e es s)
  then show ?case
    by (cases e) (auto simp: Let_def split: if_splits)
qed

lemma getAllFilesToSync_scan:
  "getAllFilesToSync K now dir tree ms =
     map fst (filter (\<lambda>(q, t). codeEligible K now ms q t) (scannedFiles K [dir] tree))"
  by (simp add: getAllFilesToSync_def Walk_def walk_scan)

lemma allFiles_prefix:
  "(q, t) \<in> set (allFiles p node) \<Longrightarrow> \<exists>r. q = p @ r"
  by (induction p node rule: allFiles.induct) (auto simp: Join_def)

lemma dirsFrom_entry:
  assumes "(q, t) \<in> set (allFiles (Join p (nameOf e)) e)"
  shows "dirsFrom n (length p) q = n # dirsFrom (nameOf e) (length (Join p (nameOf e))) q"
proof -
  from assms obtain r where "q = Join p (nameOf e) @ r"
    using allFiles_prefix by blast
  then show ?thesis by (simp add: Join_def dirsFrom_def)
qed

lemma scannedFiles_allFiles:
  "scannedFiles K p node =
     filter (\<lambda>(q, t). FailedDir K \<notin> set (dirsFrom (nameOf node) (length p) q))
       (allFiles p node)"
proof (induction K p node rule: scannedFiles.induct)
  case (1 K p n t)
  then show ?case by (simp add: dirsFrom_def)
next
  case (2 K p n es)
  have inner: "filter (\<lambda>(q, t). FailedDir K \<notin> set (dirsFrom n (length p) q))
                 (allFiles (Join p (nameOf e)) e)
             = (if n = FailedDir K then []
                else filter (\<lambda>(q, t). FailedDir K \<notin> set (dirsFrom (nameOf e) (length (Join p (nameOf e))) q))
                       (allFiles (Join p (nameOf e)) e))" for e
  proof (cases "n = FailedDir K")
    case True
    have "\<forall>x \<in> set (allFiles (Join p (nameOf e)) e).
            \<not> (case x of (q, t) \<Rightarrow> FailedDir K \<notin> set (dirsFrom n (length p) q))"
      using True by (auto simp: dirsFrom_entry)
    then show ?thesis using True by (simp add: filter_empty_conv)
  next
    case False
    have "filter (\<lambda>(q, t). FailedDir K \<notin> set (dirsFrom n (length p) q))
                 (allFiles (Join p (nameOf e)) e)
          = filter (\<lambda>(q, t). FailedDir K \<notin> set (dirsFrom (nameOf e) (length (Join p (nameOf e))) q))
                       (allFiles (Join p (nameOf e)) e)"
      using False by (intro filter_cong refl) (auto simp: dirsFrom_entry)
    then show ?thesis using False by simp
  qed
  show ?case
  proof (cases "n = FailedDir K")
    case True
    with inner show ?thesis by (simp add: filter_concat comp_def)
  next
    case False
    with 2 show ?thesis
      by (simp add: filter_concat inner comp_def cong: map_cong)
  qed
next
  case (3 K p n)
  then show ?case by simp
next
  case (4 K p n)
  then show ?case by simp
qed

lemma dirsAbove_dirsFrom: "dirsAbove tree p = dirsFrom (nameOf tree) (Suc 0) p"
  by (simp add: dirsAbove_def dirsFrom_def drop_Suc)

lemma wrap64_id: "minDuration \<le> x \<Longrightarrow> x \<le> maxDuration \<Longrightarrow> wrap64 x = x"
  by (simp add: wrap64_def minDuration_def maxDuration_def)

lemma codeEligible_spec:
  "minDuration \<le> ms * Millisecond \<Longrightarrow> ms * Millisecond \<le> maxDuration \<Longrightarrow>
   codeEligible K now ms p t = eligibleAtAge K ms p (age now t)"
  by (auto simp: codeEligible_def eligibleAtAge_def age_def Let_def wrap64_id
        defaultFileLastModifiedMillis_def max_def)


lemma getAllFilesToSync_filter:
  "getAllFilesToSync K now dir tree ms =
     map fst (filter (\<lambda>(p, t). FailedDir K \<notin> set (dirsAbove tree p) \<and> codeEligible K now ms p t)
       (allFiles [dir] tree))"
  by (simp add: getAllFilesToSync_scan scannedFiles_allFiles dirsAbove_dirsFrom
        case_prod_unfold conj_commute)

text \<open>
  Claim C2, amended. When the stale threshold times one millisecond fits a 64-bit
  Duration, the scan selects, in walk order, exactly the non-directory entries of the
  tree that do not lie below a directory named \<open>FailedDir\<close> and that satisfy one of
  the three predicates: completed extension, or in-progress extension and age at least
  10000 ms, or another extension and age at least the stale threshold. In the example of
  the specification (a.completed of any age, b.inprogress aged 20000 ms, c.plain aged
  500 ms, threshold 10000) exactly a.completed and b.inprogress are selected.
\<close>

theorem getAllFilesToSync_selects_eligible:
  assumes "minDuration \<le> staleMillis * Millisecond" and "staleMillis * Millisecond \<le> maxDuration"
  shows "getAllFilesToSync K now dir tree staleMillis =
           map fst (filter (\<lambda>(p, t). FailedDir K \<notin> set (dirsAbove tree p)
                                     \<and> eligibleAtAge K staleMillis p (age now t))
             (allFiles [dir] tree))
         \<and> getAllFilesToSync exampleConsts now ''capture''
             (Dir ''capture'' [File ''a.completed'' ta,
                              File ''b.inprogress'' (now - 20000 * Millisecond),
                              File ''c.plain'' (now - 500 * Millisecond)]) 10000
           = [[''capture'', ''a.completed''], [''capture'', ''b.inprogress'']]"
proof
  show "getAllFilesToSync K now dir tree staleMillis =
           map fst (filter (\<lambda>(p, t). FailedDir K \<notin> set (dirsAbove tree p)
                                     \<and> eligibleAtAge K staleMillis p (age now t))
             (allFiles [dir] tree))"
    using assms by (simp add: getAllFilesToSync_filter codeEligible_spec)
next
  have e1: "Ext ''capture/a.completed'' = ''.completed''" by (simp add: Ext_def)
  have e2: "Ext ''capture/b.inprogress'' = ''.inprogress''" by (simp add: Ext_def)
  have e3: "Ext ''capture/c.plain'' = ''.plain''" by (simp add: Ext_def)
  show "getAllFilesToSync exampleConsts now ''capture''
             (Dir ''capture'' [File ''a.completed'' ta,
                              File ''b.inprogress'' (now - 20000 * Millisecond),
                              File ''c.plain'' (now - 500 * Millisecond)]) 10000
           = [[''capture'', ''a.completed''], [''capture'', ''b.inprogress'']]"
    by (simp add: getAllFilesToSync_scan codeEligible_def exampleConsts_def Join_def e1 e2 e3
          Since_def Millisecond_def maxDuration_def minDuration_def wrap64_def
          defaultFileLastModifiedMillis_def Let_def)
qed


text \<open>
  The theorem of C2 at a tree with a fresh file, a stale file and a completed file in
  the failed directory.
\<close>

theorem getAllFilesToSync_selects_eligible_witness:
  "getAllFilesToSync exampleConsts 30000000000 ''capture''
     (Dir ''capture'' [File ''c.plain'' 29500000000, File ''d.plain'' 0,
                      Dir ''failed'' [File ''e.completed'' 0]]) 10000
   = [[''capture'', ''d.plain'']]"
proof -
  have e1: "Ext ''capture/c.plain'' = ''.plain''" by (simp add: Ext_def)
  have e2: "Ext ''capture/d.plain'' = ''.plain''" by (simp add: Ext_def)
  have e3: "Ext ''capture/failed/e.completed'' = ''.completed''" by (simp add: Ext_def)
  have h1: "minDuration \<le> 10000 * Millisecond" by (simp add: minDuration_def Millisecond_def)
  have h2: "10000 * Millisecond \<le> maxDuration" by (simp add: maxDuration_def Millisecond_def)
  show ?thesis
    using getAllFilesToSync_selects_eligible [OF h1 h2, of exampleConsts 30000000000 "''capture''"
        "Dir ''capture'' [File ''c.plain'' 29500000000, File ''d.plain'' 0,
                          Dir ''failed'' [File ''e.completed'' 0]]"]
    by (simp add: exampleConsts_def Join_def dirsAbove_def eligibleAtAge_def age_def Since_def
          maxDuration_def minDuration_def Millisecond_def e1 e2 e3)
qed

text \<open>
  Claim C2 as stated fails: a completed capture file below the failed directory is a
  regular file of the tree and is not selected; and with a threshold of 9223372036855 ms
  the 64-bit product wraps, so a plain file of age zero is selected.
\<close>

theorem getAllFilesToSync_completed_not_selected:
  "[''capture'', ''failed'', ''e.completed'']
     \<notin> set (getAllFilesToSync exampleConsts 30000000000 ''capture''
              (Dir ''capture'' [Dir ''failed'' [File ''e.completed'' 0]]) 10000)
   \<and> ([''capture'', ''failed'', ''e.completed''], 0)
     \<in> set (allFiles [''capture''] (Dir ''capture'' [Dir ''failed'' [File ''e.completed'' 0]]))
   \<and> Ext (pathString [''capture'', ''failed'', ''e.completed'']) = FileExt exampleConsts
   \<and> [''capture'', ''c.plain'']
     \<in> set (getAllFilesToSync exampleConsts 0 ''capture''
              (Dir ''capture'' [File ''c.plain'' 0]) 9223372036855)
   \<and> Ext (pathString [''capture'', ''c.plain'']) \<noteq> FileExt exampleConsts
   \<and> Ext (pathString [''capture'', ''c.plain'']) \<noteq> InProgressFileExt exampleConsts
   \<and> age 0 0 < 9223372036855 * Millisecond"
  by (simp add: getAllFilesToSync_scan codeEligible_def exampleConsts_def Join_def Ext_def
        Since_def age_def Millisecond_def maxDuration_def minDuration_def wrap64_def
        defaultFileLastModifiedMillis_def Let_def)

text \<open>
  Claim C7. Every selected path is a non-directory entry of the tree, and none of the
  directories it passes through (the root included) is named \<open>FailedDir\<close>.
\<close>

theorem getAllFilesToSync_never_below_FailedDir:
  "p \<in> set (getAllFilesToSync K now dir tree lastModifiedMillis)
   \<Longrightarrow> FailedDir K \<notin> set (dirsAbove tree p)
       \<and> (\<exists>t. (p, t) \<in> set (allFiles [dir] tree))"
  by (auto simp: getAllFilesToSync_filter)

text \<open>
  The theorem of C7 at a tree with a failed directory beside an ordinary one.
\<close>

theorem getAllFilesToSync_never_below_FailedDir_witness:
  "[''capture'', ''sub'', ''a.completed'']
     \<in> set (getAllFilesToSync exampleConsts 0 ''capture''
              (Dir ''capture'' [Dir ''failed'' [File ''z.completed'' 0],
                               Dir ''sub'' [File ''a.completed'' 0]]) 10000)
   \<and> FailedDir exampleConsts
       \<notin> set (dirsAbove (Dir ''capture'' [Dir ''failed'' [File ''z.completed'' 0],
                                          Dir ''sub'' [File ''a.completed'' 0]])
                 [''capture'', ''sub'', ''a.completed''])
   \<and> getAllFilesToSync exampleConsts 0 ''capture''
              (Dir ''capture'' [Dir ''failed'' [File ''z.completed'' 0],
                               Dir ''sub'' [File ''a.completed'' 0]]) 10000
      = [[''capture'', ''sub'', ''a.completed'']]"
proof -
  have r: "getAllFilesToSync exampleConsts 0 ''capture''
              (Dir ''capture'' [Dir ''failed'' [File ''z.completed'' 0],
                               Dir ''sub'' [File ''a.completed'' 0]]) 10000
      = [[''capture'', ''sub'', ''a.completed'']]"
    by (simp add: getAllFilesToSync_scan codeEligible_def exampleConsts_def Join_def Ext_def)
  then have m: "[''capture'', ''sub'', ''a.completed'']
     \<in> set (getAllFilesToSync exampleConsts 0 ''capture''
              (Dir ''capture'' [Dir ''failed'' [File ''z.completed'' 0],
                               Dir ''sub'' [File ''a.completed'' 0]]) 10000)"
    by simp
  from getAllFilesToSync_never_below_FailedDir [OF m] m r show ?thesis by blast
qed

text \<open>
  The clamp of lines 646 to 648, for every threshold whose product with one millisecond
  fits a 64-bit Duration: a file whose elapsed time is negative is tested at age exactly
  zero. When the threshold is positive as well, a file is eligible at age zero if and
  only if its extension is the completed-capture extension.
\<close>

theorem negative_elapsed_only_completed:
  assumes "minDuration \<le> lastModifiedMillis * Millisecond"
    and "lastModifiedMillis * Millisecond \<le> maxDuration"
  shows "getAllFilesToSync K now dir tree lastModifiedMillis =
           map fst (filter (\<lambda>(p, t). FailedDir K \<notin> set (dirsAbove tree p)
                      \<and> (if Since now t < 0 then eligibleAtAge K lastModifiedMillis p 0
                          else eligibleAtAge K lastModifiedMillis p (Since now t)))
             (allFiles [dir] tree))
         \<and> (0 < lastModifiedMillis \<longrightarrow>
              (\<forall>p. eligibleAtAge K lastModifiedMillis p 0 = (Ext (pathString p) = FileExt K)))"
proof
  have "codeEligible K now lastModifiedMillis p t =
               (if Since now t < 0 then eligibleAtAge K lastModifiedMillis p 0
                else eligibleAtAge K lastModifiedMillis p (Since now t))" for p t
    using assms by (simp add: codeEligible_spec age_def max_def)
  then show "getAllFilesToSync K now dir tree lastModifiedMillis =
           map fst (filter (\<lambda>(p, t). FailedDir K \<notin> set (dirsAbove tree p)
                      \<and> (if Since now t < 0 then eligibleAtAge K lastModifiedMillis p 0
                          else eligibleAtAge K lastModifiedMillis p (Since now t)))
             (allFiles [dir] tree))"
    by (simp add: getAllFilesToSync_filter)
next
  show "0 < lastModifiedMillis \<longrightarrow>
          (\<forall>p. eligibleAtAge K lastModifiedMillis p 0 = (Ext (pathString p) = FileExt K))"
    by (auto simp: eligibleAtAge_def Millisecond_def)
qed

text \<open>
  The theorem above at three files modified after the clock's present: with threshold 1 ms
  only the completed file is selected; with threshold -5 ms the plain file, whose elapsed
  time of -10 ms lies below the threshold, is selected as well, at age zero.
\<close>

theorem negative_elapsed_only_completed_witness:
  "Since 0 10000000 < 0
   \<and> getAllFilesToSync exampleConsts 0 ''capture''
       (Dir ''capture'' [File ''a.completed'' 10000000, File ''b.inprogress'' 10000000,
                        File ''c.plain'' 10000000]) 1
     = [[''capture'', ''a.completed'']]
   \<and> getAllFilesToSync exampleConsts 0 ''capture''
       (Dir ''capture'' [File ''a.completed'' 10000000, File ''b.inprogress'' 10000000,
                        File ''c.plain'' 10000000]) (- 5)
     = [[''capture'', ''a.completed''], [''capture'', ''c.plain'']]"
proof -
  have e1: "Ext ''capture/a.completed'' = ''.completed''" by (simp add: Ext_def)
  have e2: "Ext ''capture/b.inprogress'' = ''.inprogress''" by (simp add: Ext_def)
  have e3: "Ext ''capture/c.plain'' = ''.plain''" by (simp add: Ext_def)
  have h1: "minDuration \<le> 1 * Millisecond" "minDuration \<le> (- 5) * Millisecond"
    by (simp_all add: minDuration_def Millisecond_def)
  have h2: "1 * Millisecond \<le> maxDuration" "(- 5) * Millisecond \<le> maxDuration"
    by (simp_all add: maxDuration_def Millisecond_def)
  have s: "Since 0 10000000 < 0" by (simp add: Since_def maxDuration_def minDuration_def)
  show ?thesis
    using negative_elapsed_only_completed [OF h1(1) h2(1), of exampleConsts 0 "''capture''"
        "Dir ''capture'' [File ''a.completed'' 10000000, File ''b.inprogress'' 10000000,
                          File ''c.plain'' 10000000]"]
      negative_elapsed_only_completed [OF h1(2) h2(2), of exampleConsts 0 "''capture''"
        "Dir ''capture'' [File ''a.completed'' 10000000, File ''b.inprogress'' 10000000,
                          File ''c.plain'' 10000000]"] s
    by (simp add: exampleConsts_def Join_def dirsAbove_def e1 e2 e3 eligibleAtAge_def
        Millisecond_def)
qed

section \<open>Properties of the service and of the client connection\<close>

lemma closeSyncer_svc: "fst (closeSyncer svc w) = svc\<lparr>syncer := None\<rparr>"
  by (simp add: closeSyncer_def split: option.splits)

lemma cancelSyncScheduler_svc:
  "fst (cancelSyncScheduler svc w) = svc\<lparr>syncRoutineCancelFn := None\<rparr>"
  by (simp add: cancelSyncScheduler_def split: option.splits)

lemma startSyncScheduler_frame:
  assumes "startSyncScheduler i svc w = (r, svc', w')"
  shows "sameCapture svc' svc \<and> sameSyncSettings svc' svc \<and> syncer svc' = syncer svc
         \<and> cloudConn svc' = cloudConn svc \<and> syncRoutineCancelFn svc' = Some (nextObj w)"
  using assms
  by (auto simp: startSyncScheduler_def Let_def sameCapture_def sameSyncSettings_def
      split: if_splits)

lemma sameCapture_refl: "sameCapture a a"
  by (simp add: sameCapture_def)

lemma sameCapture_trans: "sameCapture a b \<Longrightarrow> sameCapture b c \<Longrightarrow> sameCapture a c"
  by (simp add: sameCapture_def)

lemma initSyncer_frame:
  assumes "initSyncer E svc w = (r, svc', w')"
  shows "sameCapture svc' svc \<and> sameSyncSettings svc' svc"
  using assms
  by (auto simp: initSyncer_def sameCapture_def sameSyncSettings_def
      split: option.splits acquired.splits if_splits)

lemma closeSyncer_frame:
  assumes "closeSyncer svc w = (svc', w')"
  shows "sameCapture svc' svc \<and> sameSyncSettings svc' svc"
  using closeSyncer_svc [of svc w] assms
  by (simp add: sameCapture_def sameSyncSettings_def)

lemma sameSyncSettings_trans:
  "sameSyncSettings a b \<Longrightarrow> sameSyncSettings b c \<Longrightarrow> sameSyncSettings a c"
  by (simp add: sameSyncSettings_def)

lemma ensureSyncer_frame:
  assumes "ensureSyncer E reinit svc w = (r, svc', w')"
  shows "sameCapture svc' svc \<and> sameSyncSettings svc' svc"
proof (cases "syncer svc = None")
  case True
  with assms show ?thesis by (simp add: ensureSyncer_def initSyncer_frame)
next
  case False
  show ?thesis
  proof (cases reinit)
    case True
    obtain s1 w1 where c: "closeSyncer svc w = (s1, w1)" by (cases "closeSyncer svc w")
    with assms False True have "initSyncer E s1 w1 = (r, svc', w')"
      by (simp add: ensureSyncer_def)
    from initSyncer_frame [OF this] closeSyncer_frame [OF c] show ?thesis
      by (blast intro: sameCapture_trans sameSyncSettings_trans)
  next
    case f: False
    with assms False show ?thesis
      by (simp add: ensureSyncer_def sameCapture_def sameSyncSettings_def)
  qed
qed

lemma startScheduledSync_frame:
  assumes "startScheduledSync E reinit svc w = (r, svc', w')"
  shows "sameCapture svc' svc \<and> sameSyncSettings svc' svc"
proof -
  obtain r1 s1 w1 where e: "ensureSyncer E reinit svc w = (r1, s1, w1)"
    by (cases "ensureSyncer E reinit svc w")
  note f = ensureSyncer_frame [OF e]
  have "sameCapture svc' s1 \<and> sameSyncSettings svc' s1"
  proof (cases "r1 = None \<and> syncer s1 \<noteq> None")
    case True
    then obtain s where s: "syncer s1 = Some s" by auto
    with assms e True
    have "startSyncScheduler (syncIntervalMins s1) s1
            (w1\<lparr>fileTags := fileTags w1 @ [(s, tags s1)]\<rparr>) = (r, svc', w')"
      by (simp add: startScheduledSync_def)
    from startSyncScheduler_frame [OF this] show ?thesis by simp
  next
    case False
    with assms e have "svc' = s1"
      by (cases r1) (auto simp: startScheduledSync_def split: option.splits)
    then show ?thesis by (simp add: sameCapture_def sameSyncSettings_def)
  qed
  with f show ?thesis by (blast intro: sameCapture_trans sameSyncSettings_trans)
qed

lemma stopScheduledSync_frame:
  assumes "stopScheduledSync svc w = (r, svc', w')"
  shows "sameCapture svc' svc \<and> sameSyncSettings svc' svc \<and> r = None"
proof -
  obtain s1 w1 where c: "closeSyncer (svc\<lparr>syncTicker := None\<rparr>) w = (s1, w1)"
    by (cases "closeSyncer (svc\<lparr>syncTicker := None\<rparr>) w")
  from closeSyncer_frame [OF c] assms c show ?thesis
    by (auto simp: stopScheduledSync_def sameCapture_def sameSyncSettings_def)
qed

lemma reconfigureSync_sameCapture:
  assumes "reconfigureSync E cfg reinit flmm svc w = (r, svc', w')"
  shows "sameCapture svc' svc"
proof (cases "syncSettingsChanged cfg flmm svc")
  case False
  with assms show ?thesis by (simp add: reconfigureSync_def sameCapture_def)
next
  case True
  let ?s0 = "svc\<lparr>syncDisabled := ScheduledSyncDisabled cfg,
                  syncIntervalMins := SyncIntervalMins cfg,
                  tags := SvcTags cfg, fileLastModifiedMillis := flmm\<rparr>"
  obtain s1 w1 where c: "cancelSyncScheduler ?s0 w = (s1, w1)"
    by (cases "cancelSyncScheduler ?s0 w")
  have s1: "s1 = ?s0\<lparr>syncRoutineCancelFn := None\<rparr>"
    using cancelSyncScheduler_svc [of ?s0 w] c by simp
  then have a: "sameCapture s1 svc" by (simp add: sameCapture_def)
  have "sameCapture svc' s1"
    using assms True c startScheduledSync_frame stopScheduledSync_frame
    by (auto simp: reconfigureSync_def split: if_splits)
  with a show ?thesis by (rule sameCapture_trans [rotated])
qed

lemma reconfigureSync_threshold:
  assumes "reconfigureSync E cfg reinit flmm svc w = (r, svc', w')"
  shows "fileLastModifiedMillis svc' = flmm"
proof (cases "syncSettingsChanged cfg flmm svc")
  case False
  with assms show ?thesis by (simp add: reconfigureSync_def syncSettingsChanged_def)
next
  case True
  let ?s0 = "svc\<lparr>syncDisabled := ScheduledSyncDisabled cfg,
                  syncIntervalMins := SyncIntervalMins cfg,
                  tags := SvcTags cfg, fileLastModifiedMillis := flmm\<rparr>"
  obtain s1 w1 where c: "cancelSyncScheduler ?s0 w = (s1, w1)"
    by (cases "cancelSyncScheduler ?s0 w")
  have s1: "s1 = ?s0\<lparr>syncRoutineCancelFn := None\<rparr>"
    using cancelSyncScheduler_svc [of ?s0 w] c by simp
  have "sameSyncSettings svc' s1"
    using assms True c startScheduledSync_frame stopScheduledSync_frame
    by (auto simp: reconfigureSync_def split: if_splits)
  with s1 show ?thesis by (simp add: sameSyncSettings_def)
qed

lemma Reconfigure_cases [consumes 2, case_names nodep rejected passed]:
  assumes "Reconfigure E deps conf svc w = (r, svc', w')" and "NativeConfig conf = Inr cfg"
  obtains
    (nodep) "cloudService deps = None" "r = Some ErrDependencyNotFound" "svc' = svc" "w' = w"
  | (rejected) c where "cloudService deps = Some c" "\<not> trusted E" "CaptureDir cfg \<noteq> []"
      "CaptureDir cfg \<noteq> viamCaptureDotDir E"
      "r = Some errCaptureDirectoryConfigurationDisabled"
      "svc' = svc\<lparr>cloudConnSvc := Some c\<rparr>"
      "w' = snd (updateDataCaptureConfigs deps (ResourceConfigs cfg) (CaptureDir cfg) w)"
  | (passed) c rcs w1 svc2 w2 svc3 w3 where "cloudService deps = Some c"
      "trusted E \<or> CaptureDir cfg = [] \<or> CaptureDir cfg = viamCaptureDotDir E"
      "updateDataCaptureConfigs deps (ResourceConfigs cfg) (CaptureDir cfg) w = (rcs, w1)"
      "reconfigureCapture E cfg rcs (svc\<lparr>cloudConnSvc := Some c\<rparr>) w1 = (svc2, w2)"
      "reconfigureSelectiveSync deps cfg svc2 w2 = (svc3, w3)"
      "reconfigureSync E cfg (Some c \<noteq> cloudConnSvc svc)
         (if FileLastModifiedMillis cfg \<le> 0 then defaultFileLastModifiedMillis
          else FileLastModifiedMillis cfg) svc3 w3 = (r, svc', w')"
proof (cases "cloudService deps")
  case None
  with assms nodep show ?thesis by (simp add: Reconfigure_def)
next
  case (Some c)
  obtain rcs w1 where u: "updateDataCaptureConfigs deps (ResourceConfigs cfg) (CaptureDir cfg) w = (rcs, w1)"
    by (cases "updateDataCaptureConfigs deps (ResourceConfigs cfg) (CaptureDir cfg) w")
  show ?thesis
  proof (cases "\<not> trusted E \<and> CaptureDir cfg \<noteq> [] \<and> CaptureDir cfg \<noteq> viamCaptureDotDir E")
    case True
    with assms Some u rejected [of c] show ?thesis by (simp add: Reconfigure_def)
  next
    case False
    obtain svc2 w2 where c2: "reconfigureCapture E cfg rcs (svc\<lparr>cloudConnSvc := Some c\<rparr>) w1 = (svc2, w2)"
      by (cases "reconfigureCapture E cfg rcs (svc\<lparr>cloudConnSvc := Some c\<rparr>) w1")
    obtain svc3 w3 where c3: "reconfigureSelectiveSync deps cfg svc2 w2 = (svc3, w3)"
      by (cases "reconfigureSelectiveSync deps cfg svc2 w2")
    have "reconfigureSync E cfg (Some c \<noteq> cloudConnSvc svc)
         (if FileLastModifiedMillis cfg \<le> 0 then defaultFileLastModifiedMillis
          else FileLastModifiedMillis cfg) svc3 w3 = (r, svc', w')"
      using assms Some u False c2 c3 by (simp add: Reconfigure_def)
    with passed [of c rcs w1 svc2 w2 svc3 w3] Some False u c2 c3 show ?thesis by blast
  qed
qed

lemma foldl_append_concat: "foldl (\<lambda>acc x. acc @ f x) a xs = a @ concat (map f xs)"
  by (induction xs arbitrary: a) simp_all

lemma toSync_concat:
  "toSync E svc =
     concat (map (\<lambda>d. getAllFilesToSync (pkg E) (clockNow E) d (lstat E d)
                          (fileLastModifiedMillis svc))
               (captureDir svc # additionalSyncPaths svc))"
  by (simp add: toSync_def foldl_append_concat)

text \<open>
  Claim C10. After a successful \<open>Reconfigure\<close> whose configuration carries a stale
  threshold of zero or less, the service holds the default of 10000 ms, and a sync pass
  scans the capture directory and every additional path with 10000.
\<close>

theorem nonpositive_threshold_defaults:
  assumes "Reconfigure E deps conf svc w = (None, svc', w')"
    and "NativeConfig conf = Inr cfg"
    and "FileLastModifiedMillis cfg \<le> 0"
  shows "fileLastModifiedMillis svc' = 10000
         \<and> toSync E svc' =
             concat (map (\<lambda>d. getAllFilesToSync (pkg E) (clockNow E) d (lstat E d) 10000)
                       (captureDir svc' # additionalSyncPaths svc'))"
proof -
  from assms(1,2) have "fileLastModifiedMillis svc' = defaultFileLastModifiedMillis"
  proof (cases rule: Reconfigure_cases)
    case (passed c rcs w1 svc2 w2 svc3 w3)
    from reconfigureSync_threshold [OF passed(6)] assms(3) show ?thesis by simp
  qed simp_all
  then show ?thesis
    by (simp add: toSync_concat defaultFileLastModifiedMillis_def)
qed

subsection \<open>What each step does to the world\<close>

lemma onlyLogged_refl: "onlyLogged w w"
  by (simp add: onlyLogged_def)

lemma onlyLogged_trans: "onlyLogged a b \<Longrightarrow> onlyLogged b c \<Longrightarrow> onlyLogged a c"
  by (auto simp: onlyLogged_def)

lemma onlyLogged_logMsg: "onlyLogged w (logMsg m w)"
  by (simp add: onlyLogged_def logMsg_def)

lemma updateDataCaptureConfigs_world:
  "updateDataCaptureConfigs deps ds d w = (rcs, w') \<Longrightarrow> onlyLogged w w'"
proof (induction ds arbitrary: w rcs w')
  case Nil
  then show ?case by (simp add: onlyLogged_refl)
next
  case (Cons a ds)
  show ?case
  proof (cases "Lookup deps (CfgName a)")
    case None
    obtain r1 w1 where u: "updateDataCaptureConfigs deps ds d (logMsg ''failed to lookup resource'' w) = (r1, w1)"
      by (cases "updateDataCaptureConfigs deps ds d (logMsg ''failed to lookup resource'' w)")
    from Cons.prems None u have "w' = w1" by simp
    with Cons.IH [OF u] onlyLogged_logMsg show ?thesis
      by (blast intro: onlyLogged_trans)
  next
    case (Some res)
    obtain r1 w1 where u: "updateDataCaptureConfigs deps ds d w = (r1, w1)"
      by (cases "updateDataCaptureConfigs deps ds d w")
    from Cons.prems Some u have "w' = w1" by simp
    with Cons.IH [OF u] show ?thesis by simp
  qed
qed

lemma updateDataCaptureConfigs_resolved:
  "\<forall>d \<in> set ds. Lookup deps (CfgName d) \<noteq> None \<Longrightarrow>
   updateDataCaptureConfigs deps ds dir w =
     (map (\<lambda>d. d\<lparr>Resource := Lookup deps (CfgName d), CaptureDirectory := dir\<rparr>) ds, w)"
  by (induction ds) auto


subsection \<open>The sync manager steps\<close>

lemma sameCollectorEvents_refl: "sameCollectorEvents w w"
  by (simp add: sameCollectorEvents_def)

lemma sameCollectorEvents_trans:
  "sameCollectorEvents a b \<Longrightarrow> sameCollectorEvents b c \<Longrightarrow> sameCollectorEvents a c"
  by (simp add: sameCollectorEvents_def)

lemma initSyncer_world:
  "initSyncer E svc w = (r, svc', w') \<Longrightarrow>
     sameCollectorEvents w' w \<and> set (logs w) \<subseteq> set (logs w')"
  by (auto simp: initSyncer_def sameCollectorEvents_def logMsg_def
      split: option.splits acquired.splits if_splits)

lemma closeSyncer_world:
  "closeSyncer svc w = (svc', w') \<Longrightarrow>
     sameCollectorEvents w' w \<and> set (logs w) \<subseteq> set (logs w')"
  by (auto simp: closeSyncer_def sameCollectorEvents_def split: option.splits)

lemma cancelSyncScheduler_world:
  "cancelSyncScheduler svc w = (svc', w') \<Longrightarrow>
     sameCollectorEvents w' w \<and> set (logs w) \<subseteq> set (logs w')"
  by (auto simp: cancelSyncScheduler_def sameCollectorEvents_def split: option.splits)

lemma ensureSyncer_world:
  assumes "ensureSyncer E reinit svc w = (r, svc', w')"
  shows "sameCollectorEvents w' w \<and> set (logs w) \<subseteq> set (logs w')"
proof (cases "syncer svc = None")
  case True
  with assms show ?thesis by (simp add: ensureSyncer_def initSyncer_world)
next
  case False
  show ?thesis
  proof (cases reinit)
    case True
    obtain s1 w1 where c: "closeSyncer svc w = (s1, w1)" by (cases "closeSyncer svc w")
    with assms False True have "initSyncer E s1 w1 = (r, svc', w')"
      by (simp add: ensureSyncer_def)
    from initSyncer_world [OF this] closeSyncer_world [OF c] show ?thesis
      by (blast intro: sameCollectorEvents_trans)
  next
    case f: False
    with assms False show ?thesis
      by (simp add: ensureSyncer_def sameCollectorEvents_def)
  qed
qed

lemma startScheduledSync_world:
  assumes "startScheduledSync E reinit svc w = (r, svc', w')"
  shows "sameCollectorEvents w' w \<and> set (logs w) \<subseteq> set (logs w')"
proof -
  obtain r1 s1 w1 where e: "ensureSyncer E reinit svc w = (r1, s1, w1)"
    by (cases "ensureSyncer E reinit svc w")
  have "sameCollectorEvents w' w1 \<and> set (logs w1) \<subseteq> set (logs w')"
    using assms e
    by (cases r1)
      (auto simp: startScheduledSync_def startSyncScheduler_def Let_def sameCollectorEvents_def
        split: option.splits if_splits)
  with ensureSyncer_world [OF e] show ?thesis
    by (blast intro: sameCollectorEvents_trans)
qed

lemma stopScheduledSync_world:
  assumes "stopScheduledSync svc w = (r, svc', w')"
  shows "sameCollectorEvents w' w \<and> set (logs w) \<subseteq> set (logs w')"
proof -
  obtain s1 w1 where c: "closeSyncer (svc\<lparr>syncTicker := None\<rparr>) w = (s1, w1)"
    by (cases "closeSyncer (svc\<lparr>syncTicker := None\<rparr>) w")
  from closeSyncer_world [OF c] assms c show ?thesis
    by (auto simp: stopScheduledSync_def)
qed

lemma reconfigureSync_world:
  assumes "reconfigureSync E cfg reinit flmm svc w = (r, svc', w')"
  shows "sameCollectorEvents w' w \<and> set (logs w) \<subseteq> set (logs w')"
proof (cases "syncSettingsChanged cfg flmm svc")
  case False
  with assms show ?thesis by (simp add: reconfigureSync_def sameCollectorEvents_def)
next
  case True
  let ?s0 = "svc\<lparr>syncDisabled := ScheduledSyncDisabled cfg,
                  syncIntervalMins := SyncIntervalMins cfg,
                  tags := SvcTags cfg, fileLastModifiedMillis := flmm\<rparr>"
  obtain s1 w1 where c: "cancelSyncScheduler ?s0 w = (s1, w1)"
    by (cases "cancelSyncScheduler ?s0 w")
  have "sameCollectorEvents w' w1 \<and> set (logs w1) \<subseteq> set (logs w')"
    using assms True c startScheduledSync_world stopScheduledSync_world
    by (auto simp: reconfigureSync_def split: if_splits)
  with cancelSyncScheduler_world [OF c] show ?thesis
    by (blast intro: sameCollectorEvents_trans)
qed

subsection \<open>What the sync manager steps return\<close>






subsection \<open>The capture steps leave the sync side alone\<close>



lemma collectorLoopBody_frame:
  assumes "collectorLoopBody E cfg d (svc, nc, w) = (svc', nc', w')"
  shows "sameSync svc' svc \<and> selectiveSyncEnabled svc' = selectiveSyncEnabled svc
         \<and> syncSensor svc' = syncSensor svc \<and> collectors svc' = collectors svc
         \<and> captureDir svc' = captureDir svc \<and> captureDisabled svc' = captureDisabled svc
         \<and> additionalSyncPaths svc' = additionalSyncPaths svc"
  using assms
  by (auto simp: collectorLoopBody_def Let_def sameSync_def sameSyncSettings_def
      split: if_splits prod.splits sum.splits)



lemma reconfigureSelectiveSync_frame:
  assumes "reconfigureSelectiveSync deps cfg svc w = (svc', w')"
  shows "sameSync svc' svc \<and> collectors svc' = collectors svc \<and> captureDir svc' = captureDir svc
         \<and> captureDisabled svc' = captureDisabled svc
         \<and> additionalSyncPaths svc' = additionalSyncPaths svc
         \<and> sameCollectorEvents w' w \<and> set (logs w) \<subseteq> set (logs w')"
  using assms
  by (auto simp: reconfigureSelectiveSync_def sameSync_def sameSyncSettings_def
      sameCollectorEvents_def logMsg_def split: if_splits option.splits)


lemma reconfigureSelectiveSync_unconfigured:
  assumes "reconfigureSelectiveSync deps cfg svc w = (svc', w')"
    and "SelectiveSyncerName cfg = []"
  shows "\<not> selectiveSyncEnabled svc' \<and> syncSensor svc' = None"
  using assms by (auto simp: reconfigureSelectiveSync_def)

lemmas example_defs = exampleEnv_def exampleDeps_def exampleConfig_def exampleWorld_def
  exampleDeclaration_def exampleConsts_def initialBuiltIn_def

lemmas run_defs = Reconfigure_def NativeConfig_def reconfigureCapture_def
      reconfigureSelectiveSync_def reconfigureSync_def syncSettingsChanged_def
      cancelSyncScheduler_def stopScheduledSync_def startScheduledSync_def ensureSyncer_def
      initSyncer_def startSyncScheduler_def closeSyncer_def closeCollectors_def
      collectorLoop_def collectorLoopBody_def closeRemoved_def Let_def
      defaultFileLastModifiedMillis_def initializeOrUpdateCollector_def newCollector_def
      componentMethodMetadataOf_def logMsg_def Equals_def metadataToAdditionalParamFields_def
      generateMetadataKey_def defaultCaptureQueueSize_def defaultCaptureBufferSize_def
      tickerDuration_def floatToInt64_def wrap64_def Millisecond_def minDuration_def
      maxDuration_def


lemma runSteps_4:
  "runSteps 4 step s =
     (case step s of None \<Rightarrow> None | Some s1 \<Rightarrow>
      (case step s1 of None \<Rightarrow> None | Some s2 \<Rightarrow>
      (case step s2 of None \<Rightarrow> None | Some s3 \<Rightarrow> step s3)))"
  by (simp add: numeral_eq_Suc split: option.splits)

text \<open>
  Claim C8, amended. On a handle with no channel installed whose lock no writer holds or
  waits for, \<open>Invoke\<close> and \<open>NewStream\<close> run through their four statements without
  waiting and return the error "not connected"; the record of delegated calls and the
  handle are as before. The zero handle is such a handle, and so is a handle after a
  \<open>Close\<close> that started on a free lock and has returned.
\<close>

theorem not_connected_when_lock_is_free:
  "(conn c = None \<and> \<not> writer (connMu c) \<and> waitingWriters (connMu c) = 0 \<longrightarrow>
      runSteps 4 (invokeStep C m) (c, w, AtRLock)
        = Some (c, w, Returned (Some (ErrorString ''not connected'')))
      \<and> runSteps 4 (newStreamStep C m) (c, w, AtRLock)
        = Some (c, w, Returned (Inl (ErrorString ''not connected'')))
      \<and> Invoke C c m w = (Some (ErrorString ''not connected''), w)
      \<and> NewStream C c m w = (Inl (ErrorString ''not connected''), w))
   \<and> (conn zeroClientConn = None \<and> \<not> writer (connMu zeroClientConn)
        \<and> waitingWriters (connMu zeroClientConn) = 0)
   \<and> (\<not> writer (connMu c0) \<and> readers (connMu c0) = 0 \<longrightarrow>
        (\<exists>c1 w1 r. runSteps 4 (closeStep C) (c0, w0, AtLock) = Some (c1, w1, CloseReturned r)
                   \<and> conn c1 = None \<and> connMu c1 = connMu c0))"
proof (intro conjI impI)
  assume a: "conn c = None \<and> \<not> writer (connMu c) \<and> waitingWriters (connMu c) = 0"
  then show "runSteps 4 (invokeStep C m) (c, w, AtRLock)
        = Some (c, w, Returned (Some (ErrorString ''not connected'')))"
    by (simp add: runSteps_4)
  from a show "runSteps 4 (newStreamStep C m) (c, w, AtRLock)
        = Some (c, w, Returned (Inl (ErrorString ''not connected'')))"
    by (simp add: runSteps_4)
  from a show "Invoke C c m w = (Some (ErrorString ''not connected''), w)"
    by (simp add: Invoke_def)
  from a show "NewStream C c m w = (Inl (ErrorString ''not connected''), w)"
    by (simp add: NewStream_def)
next
  show "conn zeroClientConn = None" "\<not> writer (connMu zeroClientConn)"
    "waitingWriters (connMu zeroClientConn) = 0"
    by (simp_all add: zeroClientConn_def)
next
  assume f: "\<not> writer (connMu c0) \<and> readers (connMu c0) = 0"
  show "\<exists>c1 w1 r. runSteps 4 (closeStep C) (c0, w0, AtLock) = Some (c1, w1, CloseReturned r)
                   \<and> conn c1 = None \<and> connMu c1 = connMu c0"
  proof (cases "conn c0")
    case None
    with f show ?thesis by (simp add: runSteps_4)
  next
    case (Some ch)
    with f show ?thesis by (simp add: runSteps_4)
  qed
qed

text \<open>
  The theorem of C8 at a handle closed after holding channel 3, beside a connected handle
  that delegates.
\<close>

theorem not_connected_when_lock_is_free_witness:
  "runSteps 4 (closeStep exampleChannels)
     (\<lparr>connMu = \<lparr>writer = False, readers = 0, waitingWriters = 0\<rparr>, conn = Some 3\<rparr>,
      \<lparr>delegated = [], chanClosed = []\<rparr>, AtLock)
   = Some (zeroClientConn, \<lparr>delegated = [], chanClosed = [3]\<rparr>, CloseReturned None)
   \<and> runSteps 4 (invokeStep exampleChannels ''Ping'')
       (zeroClientConn, \<lparr>delegated = [], chanClosed = [3]\<rparr>, AtRLock)
     = Some (zeroClientConn, \<lparr>delegated = [], chanClosed = [3]\<rparr>,
             Returned (Some (ErrorString ''not connected'')))
   \<and> runSteps 4 (invokeStep exampleChannels ''Ping'')
       (\<lparr>connMu = \<lparr>writer = False, readers = 0, waitingWriters = 0\<rparr>, conn = Some 3\<rparr>,
        \<lparr>delegated = [], chanClosed = []\<rparr>, AtRLock)
     = Some (\<lparr>connMu = \<lparr>writer = False, readers = 0, waitingWriters = 0\<rparr>, conn = Some 3\<rparr>,
             \<lparr>delegated = [(3, ''Ping'')], chanClosed = []\<rparr>, Returned None)"
proof -
  have h: "conn zeroClientConn = None \<and> \<not> writer (connMu zeroClientConn)
           \<and> waitingWriters (connMu zeroClientConn) = 0"
    by (simp add: zeroClientConn_def)
  from not_connected_when_lock_is_free
         [of zeroClientConn exampleChannels "''Ping''" "\<lparr>delegated = [], chanClosed = [3]\<rparr>"] h
  have "runSteps 4 (invokeStep exampleChannels ''Ping'')
       (zeroClientConn, \<lparr>delegated = [], chanClosed = [3]\<rparr>, AtRLock)
     = Some (zeroClientConn, \<lparr>delegated = [], chanClosed = [3]\<rparr>,
             Returned (Some (ErrorString ''not connected'')))"
    by blast
  then show ?thesis
    by (simp add: runSteps_4 zeroClientConn_def exampleChannels_def)
qed

text \<open>
  Claim C8 as stated fails: after \<open>Close\<close> has removed the channel and while it closes
  it, the write lock is held (the \<open>Unlock\<close> is deferred), so \<open>Invoke\<close> and
  \<open>NewStream\<close> wait at \<open>RLock\<close> although no channel is installed.
\<close>

theorem call_during_Close_waits:
  "runSteps 2 (closeStep exampleChannels)
     (\<lparr>connMu = \<lparr>writer = False, readers = 0, waitingWriters = 0\<rparr>, conn = Some 3\<rparr>,
      \<lparr>delegated = [], chanClosed = []\<rparr>, AtLock)
   = Some (\<lparr>connMu = \<lparr>writer = True, readers = 0, waitingWriters = 0\<rparr>, conn = None\<rparr>,
           \<lparr>delegated = [], chanClosed = []\<rparr>, AtChanClose 3)
   \<and> invokeStep exampleChannels ''Ping''
       (\<lparr>connMu = \<lparr>writer = True, readers = 0, waitingWriters = 0\<rparr>, conn = None\<rparr>,
        \<lparr>delegated = [], chanClosed = []\<rparr>, AtRLock) = None
   \<and> newStreamStep exampleChannels ''Ping''
       (\<lparr>connMu = \<lparr>writer = True, readers = 0, waitingWriters = 0\<rparr>, conn = None\<rparr>,
        \<lparr>delegated = [], chanClosed = []\<rparr>, AtRLock) = None"
  by (simp add: numeral_eq_Suc)


lemma Reconfigure_unconfigured_gate:
  assumes "Reconfigure E deps conf svc0 w0 = (None, svc, w1)"
    and "NativeConfig conf = Inr cfg" and "SelectiveSyncerName cfg = []"
  shows "\<not> selectiveSyncEnabled svc"
  using assms(1,2)
proof (cases rule: Reconfigure_cases)
  case (passed c rcs w1 svc2 w2 svc3 w3)
  from reconfigureSelectiveSync_unconfigured [OF passed(5) assms(3)]
    reconfigureSync_sameCapture [OF passed(6)]
  show ?thesis by (simp add: sameCapture_def)
qed simp_all

text \<open>
  Claim C4. Without selective sync the gate is true, in particular after a successful
  \<open>Reconfigure\<close> whose configuration names no selective sync source. With selective sync
  on and a sensor installed, a read error, a missing key or a non-boolean value make the
  gate false; the condition is logged, the tick reports no error and hands no file to the
  sync manager.
\<close>

theorem selective_sync_gate:
  "(\<not> selectiveSyncEnabled svc \<longrightarrow> shouldSync E svc w = (True, w))
   \<and> (Reconfigure E deps conf svc0 w0 = (None, svc, w1) \<and> NativeConfig conf = Inr cfg
        \<and> SelectiveSyncerName cfg = [] \<longrightarrow> shouldSync E svc w = (True, w))
   \<and> (selectiveSyncEnabled svc \<and> syncSensor svc = Some s
        \<and> ((\<exists>err. Readings E s = Inl err)
            \<or> (\<exists>m. Readings E s = Inr m \<and> m (ShouldSyncKey E) = None)
            \<or> (\<exists>m v. Readings E s = Inr m \<and> m (ShouldSyncKey E) = Some v \<and> (\<forall>b. v \<noteq> BoolV b)))
      \<longrightarrow> fst (shouldSync E svc w) = False
          \<and> (\<exists>m. snd (shouldSync E svc w) = logMsg m w)
          \<and> fst (tick E svc w) = None
          \<and> syncedFiles (snd (tick E svc w)) = syncedFiles w)"
proof (intro conjI impI)
  show g: "shouldSync E svc w = (True, w)" if "\<not> selectiveSyncEnabled svc"
    using that by (simp add: shouldSync_def split: option.splits)
  show "shouldSync E svc w = (True, w)"
    if "Reconfigure E deps conf svc0 w0 = (None, svc, w1) \<and> NativeConfig conf = Inr cfg
        \<and> SelectiveSyncerName cfg = []"
    using that Reconfigure_unconfigured_gate g by blast
next
  assume a: "selectiveSyncEnabled svc \<and> syncSensor svc = Some s
        \<and> ((\<exists>err. Readings E s = Inl err)
            \<or> (\<exists>m. Readings E s = Inr m \<and> m (ShouldSyncKey E) = None)
            \<or> (\<exists>m v. Readings E s = Inr m \<and> m (ShouldSyncKey E) = Some v \<and> (\<forall>b. v \<noteq> BoolV b)))"
  have nb: "AssertType_bool v = None" if "\<forall>b. v \<noteq> BoolV b" for v
    using that by (cases v) auto
  from a have r: "\<exists>m. readyToSync E s w = (False, logMsg m w)"
    by (auto simp: readyToSync_def nb)
  with a have s: "\<exists>m. shouldSync E svc w = (False, logMsg m w)"
    by (simp add: shouldSync_def)
  then show "fst (shouldSync E svc w) = False" by auto
  from s show "\<exists>m. snd (shouldSync E svc w) = logMsg m w" by auto
  from s show "fst (tick E svc w) = None"
    by (auto simp: tick_def split: option.splits)
  from s show "syncedFiles (snd (tick E svc w)) = syncedFiles w"
    by (auto simp: tick_def logMsg_def split: option.splits)
qed

text \<open>
  The theorem of C4 at the initial state, and the gate at a sensor whose readings lack
  the key.
\<close>

theorem selective_sync_gate_witness:
  "shouldSync exampleEnv ((initialBuiltIn exampleEnv)\<lparr>selectiveSyncEnabled := True, syncSensor := Some 9\<rparr>)
     exampleWorld
   = (False, logMsg ''value for should sync key not present in readings'' exampleWorld)
   \<and> shouldSync exampleEnv (initialBuiltIn exampleEnv) exampleWorld = (True, exampleWorld)"
proof -
  have a: "shouldSync exampleEnv ((initialBuiltIn exampleEnv)\<lparr>selectiveSyncEnabled := True, syncSensor := Some 9\<rparr>)
     exampleWorld
   = (False, logMsg ''value for should sync key not present in readings'' exampleWorld)"
    by (simp add: shouldSync_def readyToSync_def exampleEnv_def initialBuiltIn_def)
  have b: "\<not> selectiveSyncEnabled (initialBuiltIn exampleEnv)"
    by (simp add: initialBuiltIn_def)
  from selective_sync_gate [of "initialBuiltIn exampleEnv" exampleEnv exampleWorld] b a
  show ?thesis by blast
qed

lemma result_triple: "fst x = r \<Longrightarrow> x = (r, fst (snd x), snd (snd x))"
  by (cases x) auto

text \<open>
  The theorem of C10 at a service that held 500 ms, reconfigured with -5.
\<close>

theorem nonpositive_threshold_defaults_witness:
  "fst (Reconfigure exampleEnv exampleDeps
          \<lparr>ConvertedAttributes = Some (exampleConfig\<lparr>FileLastModifiedMillis := - 5\<rparr>)\<rparr>
          ((initialBuiltIn exampleEnv)\<lparr>fileLastModifiedMillis := 500\<rparr>) exampleWorld) = None
   \<and> fileLastModifiedMillis (fst (snd (Reconfigure exampleEnv exampleDeps
          \<lparr>ConvertedAttributes = Some (exampleConfig\<lparr>FileLastModifiedMillis := - 5\<rparr>)\<rparr>
          ((initialBuiltIn exampleEnv)\<lparr>fileLastModifiedMillis := 500\<rparr>) exampleWorld))) = 10000"
proof -
  let ?conf = "\<lparr>ConvertedAttributes = Some (exampleConfig\<lparr>FileLastModifiedMillis := - 5\<rparr>)\<rparr>"
  let ?svc = "(initialBuiltIn exampleEnv)\<lparr>fileLastModifiedMillis := 500\<rparr>"
  let ?run = "Reconfigure exampleEnv exampleDeps ?conf ?svc exampleWorld"
  have r: "fst ?run = None"
    by (simp add: run_defs example_defs)
  have n: "NativeConfig ?conf = Inr (exampleConfig\<lparr>FileLastModifiedMillis := - 5\<rparr>)"
    by (simp add: NativeConfig_def)
  have f: "FileLastModifiedMillis (exampleConfig\<lparr>FileLastModifiedMillis := - 5\<rparr>) \<le> 0"
    by simp
  from nonpositive_threshold_defaults [OF result_triple [OF r] n f] r show ?thesis by simp
qed


text \<open>
  Claim C1, amended. In an untrusted environment a capture directory that is neither
  empty nor the default makes \<open>Reconfigure\<close> fail: with the capture directory error
  when the cloud connection service is among the dependencies, with the dependency error
  otherwise. Every field of the service other than \<open>cloudConnSvc\<close> is as before (the
  task map included), and the world differs by log messages only.
\<close>

theorem capture_dir_override_rejected:
  assumes "\<not> trusted E" and "CaptureDir cfg \<noteq> []" and "CaptureDir cfg \<noteq> viamCaptureDotDir E"
    and "NativeConfig conf = Inr cfg"
    and "Reconfigure E deps conf svc w = (r, svc', w')"
  shows "r = Some (if cloudService deps = None then ErrDependencyNotFound
                   else errCaptureDirectoryConfigurationDisabled)
         \<and> svc'\<lparr>cloudConnSvc := cloudConnSvc svc\<rparr> = svc
         \<and> onlyLogged w w'"
  using assms(5,4)
proof (cases rule: Reconfigure_cases)
  case nodep
  then show ?thesis by (simp add: onlyLogged_refl)
next
  case (rejected c)
  obtain rcs w1 where u: "updateDataCaptureConfigs deps (ResourceConfigs cfg) (CaptureDir cfg) w = (rcs, w1)"
    by (cases "updateDataCaptureConfigs deps (ResourceConfigs cfg) (CaptureDir cfg) w")
  from updateDataCaptureConfigs_world [OF u] u rejected show ?thesis by simp
next
  case (passed c rcs w1 svc2 w2 svc3 w3)
  with assms(1-3) show ?thesis by simp
qed

text \<open>
  The theorem of C1 at a service that already holds the cloud connection service of the
  dependencies.
\<close>

theorem capture_dir_override_rejected_witness:
  "fst (Reconfigure exampleEnv exampleDeps
          \<lparr>ConvertedAttributes = Some (exampleConfig\<lparr>CaptureDir := ''/tmp/capture''\<rparr>)\<rparr>
          ((initialBuiltIn exampleEnv)\<lparr>cloudConnSvc := Some 1\<rparr>) exampleWorld)
     = Some errCaptureDirectoryConfigurationDisabled
   \<and> fst (snd (Reconfigure exampleEnv exampleDeps
          \<lparr>ConvertedAttributes = Some (exampleConfig\<lparr>CaptureDir := ''/tmp/capture''\<rparr>)\<rparr>
          ((initialBuiltIn exampleEnv)\<lparr>cloudConnSvc := Some 1\<rparr>) exampleWorld))
     = (initialBuiltIn exampleEnv)\<lparr>cloudConnSvc := Some 1\<rparr>"
proof -
  let ?cfg = "exampleConfig\<lparr>CaptureDir := ''/tmp/capture''\<rparr>"
  let ?conf = "\<lparr>ConvertedAttributes = Some ?cfg\<rparr>"
  let ?svc = "(initialBuiltIn exampleEnv)\<lparr>cloudConnSvc := Some 1\<rparr>"
  let ?run = "Reconfigure exampleEnv exampleDeps ?conf ?svc exampleWorld"
  have h1: "\<not> trusted exampleEnv" by (simp add: exampleEnv_def)
  have h2: "CaptureDir ?cfg \<noteq> []" by simp
  have h3: "CaptureDir ?cfg \<noteq> viamCaptureDotDir exampleEnv" by (simp add: exampleEnv_def)
  have h4: "NativeConfig ?conf = Inr ?cfg" by (simp add: NativeConfig_def)
  have h5: "?run = (fst ?run, fst (snd ?run), snd (snd ?run))" by simp
  have d: "cloudService exampleDeps \<noteq> None" by (simp add: exampleDeps_def)
  from capture_dir_override_rejected [OF h1 h2 h3 h4 h5] d
  have "fst ?run = Some errCaptureDirectoryConfigurationDisabled"
    and "(fst (snd ?run))\<lparr>cloudConnSvc := cloudConnSvc ?svc\<rparr> = ?svc" by simp_all
  moreover have "cloudConnSvc (fst (snd ?run)) = Some 1"
    by (simp add: Reconfigure_def NativeConfig_def example_defs)
  ultimately show ?thesis
    by (metis (no_types, lifting) builtIn.surjective builtIn.update_convs(11) builtIn.select_convs(11))
qed

text \<open>
  Claim C1 as stated fails: the rejected call has already stored the new cloud
  connection service (line 417 precedes the check of line 421).
\<close>

theorem failed_Reconfigure_replaces_cloudConnSvc:
  "fst (Reconfigure exampleEnv exampleDeps
          \<lparr>ConvertedAttributes = Some (exampleConfig\<lparr>CaptureDir := ''/tmp/capture''\<rparr>)\<rparr>
          ((initialBuiltIn exampleEnv)\<lparr>cloudConnSvc := Some 5\<rparr>) exampleWorld)
     = Some errCaptureDirectoryConfigurationDisabled
   \<and> cloudConnSvc (fst (snd (Reconfigure exampleEnv exampleDeps
          \<lparr>ConvertedAttributes = Some (exampleConfig\<lparr>CaptureDir := ''/tmp/capture''\<rparr>)\<rparr>
          ((initialBuiltIn exampleEnv)\<lparr>cloudConnSvc := Some 5\<rparr>) exampleWorld))) = Some 1
   \<and> cloudConnSvc ((initialBuiltIn exampleEnv)\<lparr>cloudConnSvc := Some 5\<rparr>) = Some 5"
  by (simp add: Reconfigure_def NativeConfig_def example_defs)




subsection \<open>Creation and teardown of the sync manager\<close>





lemma syncSettingsChanged_sameSync:
  "sameSync a b \<Longrightarrow> syncSettingsChanged cfg f a = syncSettingsChanged cfg f b"
  by (simp add: sameSync_def sameSyncSettings_def syncSettingsChanged_def)

















text \<open>
  Claim C9 at a failing input. A configured stale threshold of 9223372036855 ms is
  positive, so \<open>Reconfigure\<close> keeps it; its product with one millisecond wraps to a
  negative Duration. A sync pass then selects a plain file whose elapsed time is negative
  (age zero), although it is not a completed capture file and was modified within the
  threshold.
\<close>

theorem overflowing_threshold_selects_fresh_file:
  "fst (Reconfigure (exampleEnv\<lparr>lstat := (\<lambda>d. Dir ''capture'' [File ''c.plain'' 5])\<rparr>) exampleDeps
          \<lparr>ConvertedAttributes = Some (exampleConfig\<lparr>FileLastModifiedMillis := 9223372036855\<rparr>)\<rparr>
          (initialBuiltIn exampleEnv) exampleWorld) = None
   \<and> toSync (exampleEnv\<lparr>lstat := (\<lambda>d. Dir ''capture'' [File ''c.plain'' 5])\<rparr>)
       (fst (snd (Reconfigure (exampleEnv\<lparr>lstat := (\<lambda>d. Dir ''capture'' [File ''c.plain'' 5])\<rparr>)
          exampleDeps
          \<lparr>ConvertedAttributes = Some (exampleConfig\<lparr>FileLastModifiedMillis := 9223372036855\<rparr>)\<rparr>
          (initialBuiltIn exampleEnv) exampleWorld)))
     = [[''/home/viam/.viam/capture'', ''c.plain'']]
   \<and> Since (clockNow exampleEnv) 5 < 0
   \<and> Ext (pathString [''/home/viam/.viam/capture'', ''c.plain'']) \<noteq> FileExt (pkg exampleEnv)
   \<and> wrap64 (9223372036855 * Millisecond) = - 9223372036854551616"
proof -
  let ?E = "exampleEnv\<lparr>lstat := (\<lambda>d. Dir ''capture'' [File ''c.plain'' 5])\<rparr>"
  let ?run = "Reconfigure ?E exampleDeps
          \<lparr>ConvertedAttributes = Some (exampleConfig\<lparr>FileLastModifiedMillis := 9223372036855\<rparr>)\<rparr>
          (initialBuiltIn exampleEnv) exampleWorld"
  have r: "fst ?run = None" by (simp add: run_defs example_defs)
  have f: "fileLastModifiedMillis (fst (snd ?run)) = 9223372036855"
    "captureDir (fst (snd ?run)) = ''/home/viam/.viam/capture''"
    "additionalSyncPaths (fst (snd ?run)) = []"
    by (simp_all add: run_defs example_defs)
  have e: "Ext ''/home/viam/.viam/capture/c.plain'' = ''.plain''" by (simp add: Ext_def)
  have g: "toSync ?E svc = [[''/home/viam/.viam/capture'', ''c.plain'']]"
    if "fileLastModifiedMillis svc = 9223372036855"
      "captureDir svc = ''/home/viam/.viam/capture''" "additionalSyncPaths svc = []" for svc
    using that
    by (simp add: toSync_def getAllFilesToSync_scan codeEligible_def Join_def e
        exampleEnv_def exampleConsts_def Since_def wrap64_def Millisecond_def
        maxDuration_def minDuration_def defaultFileLastModifiedMillis_def Let_def)
  have t: "toSync ?E (fst (snd ?run)) = [[''/home/viam/.viam/capture'', ''c.plain'']]"
    by (rule g [OF f])
  have o: "Since (clockNow exampleEnv) 5 < 0
     \<and> Ext (pathString [''/home/viam/.viam/capture'', ''c.plain'']) \<noteq> FileExt (pkg exampleEnv)
     \<and> wrap64 (9223372036855 * Millisecond) = - 9223372036854551616"
    by (simp add: e exampleEnv_def exampleConsts_def Since_def wrap64_def Millisecond_def
        maxDuration_def minDuration_def)
  from r t o show ?thesis by blast
qed

text \<open>
  A sync interval of -1 minute, or of half a millisecond, passes the test of line 525
  and makes the ticker of line 572 panic.
\<close>

lemma nonpositive_ticker_interval_panics:
  "fst (Reconfigure exampleEnv exampleDeps
          \<lparr>ConvertedAttributes = Some (exampleConfig\<lparr>SyncIntervalMins := - 1\<rparr>)\<rparr>
          (initialBuiltIn exampleEnv) exampleWorld) = Some NonPositiveTickerInterval
   \<and> fst (Reconfigure exampleEnv exampleDeps
          \<lparr>ConvertedAttributes = Some (exampleConfig\<lparr>SyncIntervalMins := 1 / 120000\<rparr>)\<rparr>
          (initialBuiltIn exampleEnv) exampleWorld) = Some NonPositiveTickerInterval"
  by (simp add: run_defs example_defs)

subsection \<open>Unchanged declarations\<close>

lemma initializeOrUpdateCollector_unchanged:
  assumes "BuildCaptureMetadata E (API (CfgName config)) (ShortName (CfgName config))
             (Method config) (AdditionalParams config) (Tags config) \<noteq> None"
    and "map_of (collectors svc) md = Some cc"
    and "Equals (StoredConfig cc) config"
  shows "initializeOrUpdateCollector E svc md config w = (Inr cc, w)"
  using assms by (auto simp: initializeOrUpdateCollector_def)

text \<open>A resolved declaration that the loop finds unchanged in the task map \<open>C\<close>.\<close>

lemma collectorLoopBody_unchanged:
  assumes "Resource d \<noteq> None" and "\<not> Disabled d" and "CaptureFrequencyHz d > 0"
    and "BuildCaptureMetadata E (API (CfgName d)) (ShortName (CfgName d))
             (Method d) (AdditionalParams d) (SvcTags cfg) \<noteq> None"
    and "map_of (collectors svc) (componentMethodMetadataOf E d) = Some cc"
    and "Equals (StoredConfig cc) (d\<lparr>Tags := SvcTags cfg\<rparr>)"
    and "collectorLoopBody E cfg d (svc, nc, w) = (svc', nc', w')"
  shows "collectors svc' = collectors svc \<and> onlyLogged w w'
         \<and> nc' = AList.update (componentMethodMetadataOf E d) cc nc"
proof -
  let ?md = "componentMethodMetadataOf E d"
  let ?w1 = "(case componentMethodFrequencyHz svc ?md of
                None \<Rightarrow> logMsg ''capture frequency is set'' w
              | Some hz \<Rightarrow> if CaptureFrequencyHz d \<noteq> hz
                           then logMsg ''capture frequency is set'' w else w)"
  let ?s1 = "svc\<lparr>componentMethodFrequencyHz :=
                   (componentMethodFrequencyHz svc)(?md \<mapsto> CaptureFrequencyHz d)\<rparr>"
  have w1: "onlyLogged w ?w1"
    by (simp add: onlyLogged_logMsg onlyLogged_refl split: option.splits)
  have b: "BuildCaptureMetadata E (API (CfgName (d\<lparr>Tags := SvcTags cfg\<rparr>)))
             (ShortName (CfgName (d\<lparr>Tags := SvcTags cfg\<rparr>)))
             (Method (d\<lparr>Tags := SvcTags cfg\<rparr>)) (AdditionalParams (d\<lparr>Tags := SvcTags cfg\<rparr>))
             (Tags (d\<lparr>Tags := SvcTags cfg\<rparr>)) \<noteq> None"
    using assms(4) by simp
  have m: "map_of (collectors ?s1) ?md = Some cc" using assms(5) by simp
  have i: "initializeOrUpdateCollector E ?s1 ?md (d\<lparr>Tags := SvcTags cfg\<rparr>) ?w1 = (Inr cc, ?w1)"
    by (rule initializeOrUpdateCollector_unchanged [OF b m assms(6)])
  have "collectorLoopBody E cfg d (svc, nc, w) = (?s1, AList.update ?md cc nc, ?w1)"
    using assms(1,2,3) i by (simp add: collectorLoopBody_def Let_def del: not_None_eq)
  with assms(7) have "svc' = ?s1" "nc' = AList.update ?md cc nc" "w' = ?w1"
    by simp_all
  with w1 show ?thesis by simp
qed

lemma collectorLoop_unchanged:
  assumes "\<forall>d \<in> set ds. unchangedDeclaration E cfg (collectors svc) d"
    and "collectorLoop E cfg ds (svc, nc, w) = (svc', nc', w')"
  shows "collectors svc' = collectors svc \<and> onlyLogged w w'
         \<and> (\<forall>k. map_of nc' k =
                (if k \<in> componentMethodMetadataOf E ` set ds then map_of (collectors svc) k
                 else map_of nc k))"
  using assms
proof (induction ds arbitrary: svc nc w)
  case Nil
  then show ?case by (simp add: collectorLoop_def onlyLogged_refl)
next
  case (Cons d ds)
  obtain s1 n1 w1 where b: "collectorLoopBody E cfg d (svc, nc, w) = (s1, n1, w1)"
    by (cases "collectorLoopBody E cfg d (svc, nc, w)")
  from Cons.prems(1) have u: "unchangedDeclaration E cfg (collectors svc) d" by simp
  then obtain cc where cc: "map_of (collectors svc) (componentMethodMetadataOf E d) = Some cc"
    "Equals (StoredConfig cc) (d\<lparr>Tags := SvcTags cfg\<rparr>)"
    by (auto simp: unchangedDeclaration_def)
  from u have pre: "Resource d \<noteq> None" "\<not> Disabled d" "CaptureFrequencyHz d > 0"
    "BuildCaptureMetadata E (API (CfgName d)) (ShortName (CfgName d))
             (Method d) (AdditionalParams d) (SvcTags cfg) \<noteq> None"
    by (simp_all add: unchangedDeclaration_def)
  from collectorLoopBody_unchanged [OF pre cc b]
  have s1: "collectors s1 = collectors svc" and w1: "onlyLogged w w1"
    and n1: "n1 = AList.update (componentMethodMetadataOf E d) cc nc" by simp_all
  from Cons.prems(2) b have l: "collectorLoop E cfg ds (s1, n1, w1) = (svc', nc', w')"
    by (simp add: collectorLoop_def)
  from Cons.prems(1) s1 have "\<forall>d \<in> set ds. unchangedDeclaration E cfg (collectors s1) d" by simp
  from Cons.IH [OF this l]
  have ih: "collectors svc' = collectors s1" "onlyLogged w1 w'"
    "\<forall>k. map_of nc' k =
        (if k \<in> componentMethodMetadataOf E ` set ds then map_of (collectors s1) k
         else map_of n1 k)" by simp_all
  have "map_of nc' k =
          (if k \<in> componentMethodMetadataOf E ` set (d # ds) then map_of (collectors svc) k
           else map_of nc k)" for k
    using ih(3) s1 n1 cc(1) by (auto simp: update_conv')
  with ih(1,2) s1 w1 show ?case by (auto intro: onlyLogged_trans)
qed

lemma map_of_key_present: "(k, v) \<in> set C \<Longrightarrow> map_of C k \<noteq> None"
proof -
  assume "(k, v) \<in> set C"
  then have "k \<in> fst ` set C" by (rule image_eqI [rotated]) simp
  then show ?thesis by (simp add: map_of_eq_None_iff)
qed

lemma reconfigureCapture_unchanged:
  assumes "\<not> CaptureDisabled cfg"
    and "\<forall>d \<in> set rcs. unchangedDeclaration E cfg (collectors svc) d"
    and "\<forall>md \<in> fst ` set (collectors svc). md \<in> componentMethodMetadataOf E ` set rcs"
    and "reconfigureCapture E cfg rcs svc w = (svc', w')"
  shows "map_of (collectors svc') = map_of (collectors svc) \<and> onlyLogged w w'"
proof -
  let ?s3 = "(if CaptureDir cfg = [] then
               (if CaptureDir cfg \<noteq> [] then svc\<lparr>captureDir := CaptureDir cfg\<rparr> else svc)
                 \<lparr>captureDir := viamCaptureDotDir E\<rparr>
             else (if CaptureDir cfg \<noteq> [] then svc\<lparr>captureDir := CaptureDir cfg\<rparr> else svc))
            \<lparr>captureDisabled := CaptureDisabled cfg\<rparr>"
  have c3: "collectors ?s3 = collectors svc" by simp
  obtain s5 n5 w5 where l: "collectorLoop E cfg rcs (?s3, [], w) = (s5, n5, w5)"
    by (cases "collectorLoop E cfg rcs (?s3, [], w)")
  from assms(2) c3 have "\<forall>d \<in> set rcs. unchangedDeclaration E cfg (collectors ?s3) d" by simp
  from collectorLoop_unchanged [OF this l] c3
  have s5: "collectors s5 = collectors svc" and w5: "onlyLogged w w5"
    and n5: "\<forall>k. map_of n5 k =
                (if k \<in> componentMethodMetadataOf E ` set rcs then map_of (collectors svc) k
                 else None)" by simp_all
  have m: "map_of n5 = map_of (collectors svc)"
  proof
    fix k
    show "map_of n5 k = map_of (collectors svc) k"
    proof (cases "k \<in> componentMethodMetadataOf E ` set rcs")
      case True
      with n5 show ?thesis by simp
    next
      case False
      with assms(3) have "k \<notin> fst ` set (collectors svc)" by blast
      then have "map_of (collectors svc) k = None" by (simp add: map_of_eq_None_iff)
      with n5 False show ?thesis by simp
    qed
  qed
  have "filter (\<lambda>(md, c). map_of n5 md = None) (collectors s5) = []"
    using m s5 by (auto simp: filter_empty_conv dest: map_of_key_present)
  then have cr: "closeRemoved (collectors s5) n5 w5 = w5"
    by (simp add: closeRemoved_def)
  from assms(1,4) l cr
  have "svc' = s5\<lparr>collectors := n5, additionalSyncPaths := AdditionalSyncPaths cfg\<rparr>" "w' = w5"
    by (simp_all add: reconfigureCapture_def Let_def split: prod.splits)
  with m w5 show ?thesis by simp
qed

lemma onlyLogged_sameCollectorEvents: "onlyLogged w w' \<Longrightarrow> sameCollectorEvents w' w"
  by (simp add: onlyLogged_def sameCollectorEvents_def)

lemma resolved_unchanged:
  assumes "tasksWellFormed E svc"
    and "Lookup deps (CfgName d) \<noteq> None"
    and "map_of (collectors svc) (componentMethodMetadataOf E d) = Some cc"
    and "Equals (StoredConfig cc) (resolvedDeclaration deps cfg d)"
  shows "unchangedDeclaration E cfg (collectors svc)
           (d\<lparr>Resource := Lookup deps (CfgName d), CaptureDirectory := CaptureDir cfg\<rparr>)"
proof -
  let ?d1 = "d\<lparr>Resource := Lookup deps (CfgName d), CaptureDirectory := CaptureDir cfg\<rparr>"
  from assms(3) have "(componentMethodMetadataOf E d, cc) \<in> set (collectors svc)"
    by (rule map_of_SomeD)
  with assms(1) have wf: "\<not> Disabled (StoredConfig cc)" "CaptureFrequencyHz (StoredConfig cc) > 0"
    "BuildCaptureMetadata E (API (CfgName (StoredConfig cc)))
              (ShortName (CfgName (StoredConfig cc))) (Method (StoredConfig cc))
              (AdditionalParams (StoredConfig cc)) (Tags (StoredConfig cc)) \<noteq> None"
    by (auto simp: tasksWellFormed_def)
  from assms(4) have eq: "StoredConfig cc = resolvedDeclaration deps cfg d"
    by (simp add: Equals_def)
  have r: "?d1\<lparr>Tags := SvcTags cfg\<rparr> = resolvedDeclaration deps cfg d"
    by (simp add: resolvedDeclaration_def)
  have md: "componentMethodMetadataOf E ?d1 = componentMethodMetadataOf E d"
    by (simp add: componentMethodMetadataOf_def)
  from wf eq have wf1: "\<not> Disabled ?d1" "CaptureFrequencyHz ?d1 > 0"
    "BuildCaptureMetadata E (API (CfgName ?d1)) (ShortName (CfgName ?d1))
             (Method ?d1) (AdditionalParams ?d1) (SvcTags cfg) \<noteq> None"
    by (simp_all add: resolvedDeclaration_def)
  have res: "Resource ?d1 \<noteq> None" using assms(2) by simp
  have ex: "\<exists>c. map_of (collectors svc) (componentMethodMetadataOf E ?d1) = Some c
               \<and> Equals (StoredConfig c) (?d1\<lparr>Tags := SvcTags cfg\<rparr>)"
    unfolding md r using assms(3,4) by blast
  from res wf1 ex show ?thesis
    unfolding unchangedDeclaration_def by blast
qed

text \<open>
  Claim C3, amended. On a state whose tasks are well formed, a \<open>Reconfigure\<close> that does
  not disable capture and whose declarations all resolve, are all found unchanged in the
  task map and cover every task of the map leaves the task map as it was: no collector
  is closed, started or flushed, whatever the call returns.
\<close>

theorem unchanged_declarations_keep_tasks:
  assumes "NativeConfig conf = Inr cfg"
    and "\<not> CaptureDisabled cfg"
    and "tasksWellFormed E svc"
    and "\<forall>d \<in> set (ResourceConfigs cfg).
           Lookup deps (CfgName d) \<noteq> None
           \<and> (\<exists>cc. map_of (collectors svc) (componentMethodMetadataOf E d) = Some cc
                    \<and> Equals (StoredConfig cc) (resolvedDeclaration deps cfg d))"
    and "\<forall>md \<in> fst ` set (collectors svc).
           \<exists>d \<in> set (ResourceConfigs cfg). componentMethodMetadataOf E d = md"
    and "Reconfigure E deps conf svc w = (r, svc', w')"
  shows "map_of (collectors svc') = map_of (collectors svc) \<and> sameCollectorEvents w' w"
  using assms(6,1)
proof (cases rule: Reconfigure_cases)
  case nodep
  then show ?thesis by (simp add: sameCollectorEvents_refl)
next
  case (rejected c)
  obtain rcs w1 where u: "updateDataCaptureConfigs deps (ResourceConfigs cfg) (CaptureDir cfg) w = (rcs, w1)"
    by (cases "updateDataCaptureConfigs deps (ResourceConfigs cfg) (CaptureDir cfg) w")
  from updateDataCaptureConfigs_world [OF u] u rejected show ?thesis
    by (simp add: onlyLogged_sameCollectorEvents)
next
  case (passed c rcs w1 svc2 w2 svc3 w3)
  let ?res = "\<lambda>d. d\<lparr>Resource := Lookup deps (CfgName d), CaptureDirectory := CaptureDir cfg\<rparr>"
  let ?s1 = "svc\<lparr>cloudConnSvc := Some c\<rparr>"
  from assms(4) have "\<forall>d \<in> set (ResourceConfigs cfg). Lookup deps (CfgName d) \<noteq> None" by blast
  from updateDataCaptureConfigs_resolved [OF this, of "CaptureDir cfg" w] passed(3)
  have rcs: "rcs = map ?res (ResourceConfigs cfg)" and w1: "w1 = w" by simp_all
  have wf: "tasksWellFormed E ?s1" using assms(3) by (simp add: tasksWellFormed_def)
  have un: "\<forall>d \<in> set rcs. unchangedDeclaration E cfg (collectors ?s1) d"
  proof
    fix d1 assume "d1 \<in> set rcs"
    with rcs obtain d where d: "d \<in> set (ResourceConfigs cfg)" "d1 = ?res d" by auto
    with assms(4) obtain cc where
      "Lookup deps (CfgName d) \<noteq> None"
      "map_of (collectors ?s1) (componentMethodMetadataOf E d) = Some cc"
      "Equals (StoredConfig cc) (resolvedDeclaration deps cfg d)" by auto
    from resolved_unchanged [OF wf this] d(2)
    show "unchangedDeclaration E cfg (collectors ?s1) d1" by simp
  qed
  have md: "componentMethodMetadataOf E (?res d) = componentMethodMetadataOf E d" for d
    by (simp add: componentMethodMetadataOf_def)
  have cov: "\<forall>md \<in> fst ` set (collectors ?s1). md \<in> componentMethodMetadataOf E ` set rcs"
  proof
    fix k assume "k \<in> fst ` set (collectors ?s1)"
    with assms(5) obtain d where "d \<in> set (ResourceConfigs cfg)" "componentMethodMetadataOf E d = k"
      by auto
    with md [of d] rcs show "k \<in> componentMethodMetadataOf E ` set rcs"
      by (metis (no_types, lifting) image_eqI image_set)
  qed
  from reconfigureCapture_unchanged [OF assms(2) un cov passed(4)]
  have c2: "map_of (collectors svc2) = map_of (collectors svc)" and l2: "onlyLogged w1 w2"
    by simp_all
  from reconfigureSelectiveSync_frame [OF passed(5)]
  have c3: "collectors svc3 = collectors svc2" and l3: "sameCollectorEvents w3 w2" by simp_all
  from reconfigureSync_sameCapture [OF passed(6)] have c4: "collectors svc' = collectors svc3"
    by (simp add: sameCapture_def)
  from reconfigureSync_world [OF passed(6)] have l4: "sameCollectorEvents w' w3" by simp
  from c2 c3 c4 have "map_of (collectors svc') = map_of (collectors svc)" by simp
  moreover from l2 l3 l4 w1 have "sameCollectorEvents w' w"
    by (blast intro: sameCollectorEvents_trans onlyLogged_sameCollectorEvents)
  ultimately show ?thesis by simp
qed

subsection \<open>Well-formed tasks are an invariant\<close>

lemma tasksWellFormed_collectors:
  "collectors a = collectors b \<Longrightarrow> tasksWellFormed E a = tasksWellFormed E b"
  by (simp add: tasksWellFormed_def)

lemma newCollector_config:
  "newCollector E svc md config cm w = (Inr cc, w') \<Longrightarrow> StoredConfig cc = config"
  by (auto simp: newCollector_def Let_def split: option.splits if_splits)

lemma initializeOrUpdateCollector_wellFormed:
  assumes "tasksWellFormed E svc"
    and "Resource config \<noteq> None" and "\<not> Disabled config" and "CaptureFrequencyHz config > 0"
    and "initializeOrUpdateCollector E svc md config w = (Inr cc, w')"
  shows "tasksWellFormed E (svc\<lparr>collectors := [(md, cc)]\<rparr>)"
proof (cases "BuildCaptureMetadata E (API (CfgName config)) (ShortName (CfgName config))
               (Method config) (AdditionalParams config) (Tags config)")
  case None
  with assms(5) show ?thesis by (simp add: initializeOrUpdateCollector_def)
next
  case (Some cm)
  have new: "tasksWellFormed E (svc\<lparr>collectors := [(md, cc)]\<rparr>)"
    if "newCollector E svc md config cm v = (Inr cc, w')" for v
    using newCollector_config [OF that] assms(2-4) Some
    by (simp add: tasksWellFormed_def del: not_None_eq)
  show ?thesis
  proof (cases "map_of (collectors svc) md")
    case None
    with assms(5) Some have "newCollector E svc md config cm w = (Inr cc, w')"
      by (simp add: initializeOrUpdateCollector_def)
    then show ?thesis by (rule new)
  next
    case st: (Some stored)
    show ?thesis
    proof (cases "Equals (StoredConfig stored) config")
      case True
      with assms(5) Some st have "cc = stored" by (simp add: initializeOrUpdateCollector_def)
      with st have "(md, cc) \<in> set (collectors svc)" by (simp add: map_of_SomeD)
      with assms(1) show ?thesis by (auto simp: tasksWellFormed_def)
    next
      case False
      with assms(5) Some st
      have "newCollector E svc md config cm
              (w\<lparr>closedCollectors := closedCollectors w @ [Collector stored]\<rparr>) = (Inr cc, w')"
        by (simp add: initializeOrUpdateCollector_def)
      then show ?thesis by (rule new)
    qed
  qed
qed

lemma set_update_subset: "set (AList.update k v al) \<subseteq> insert (k, v) (set al)"
  by (induction al) auto

lemma collectorLoopBody_wellFormed:
  assumes "tasksWellFormed E svc" and "tasksWellFormed E (svc\<lparr>collectors := nc\<rparr>)"
    and "collectorLoopBody E cfg d (svc, nc, w) = (svc', nc', w')"
  shows "tasksWellFormed E (svc'\<lparr>collectors := nc'\<rparr>)"
proof (cases "Resource d \<noteq> None \<and> \<not> Disabled d \<and> CaptureFrequencyHz d > 0")
  case False
  with assms(3) have "nc' = nc"
    by (auto simp: collectorLoopBody_def Let_def split: if_splits)
  with assms(2) show ?thesis by (simp add: tasksWellFormed_def)
next
  case True
  let ?md = "componentMethodMetadataOf E d"
  let ?w1 = "(case componentMethodFrequencyHz svc ?md of
                None \<Rightarrow> logMsg ''capture frequency is set'' w
              | Some hz \<Rightarrow> if CaptureFrequencyHz d \<noteq> hz
                           then logMsg ''capture frequency is set'' w else w)"
  let ?s1 = "svc\<lparr>componentMethodFrequencyHz :=
                   (componentMethodFrequencyHz svc)(?md \<mapsto> CaptureFrequencyHz d)\<rparr>"
  let ?d = "d\<lparr>Tags := SvcTags cfg\<rparr>"
  obtain res w2 where i: "initializeOrUpdateCollector E ?s1 ?md ?d ?w1 = (res, w2)"
    by (cases "initializeOrUpdateCollector E ?s1 ?md ?d ?w1")
  show ?thesis
  proof (cases res)
    case (Inl err)
    with assms(3) True i have "nc' = nc"
      by (simp add: collectorLoopBody_def Let_def del: not_None_eq)
    with assms(2) show ?thesis by (simp add: tasksWellFormed_def)
  next
    case (Inr cc)
    with assms(3) True i have n: "nc' = AList.update ?md cc nc"
      by (simp add: collectorLoopBody_def Let_def del: not_None_eq)
    have wf1: "tasksWellFormed E ?s1" using assms(1) by (simp add: tasksWellFormed_def)
    have "tasksWellFormed E (?s1\<lparr>collectors := [(?md, cc)]\<rparr>)"
      using initializeOrUpdateCollector_wellFormed [OF wf1 _ _ _ i [unfolded Inr]] True
      by simp
    with assms(2) n set_update_subset [of ?md cc nc] show ?thesis
      by (auto simp: tasksWellFormed_def)
  qed
qed

lemma collectorLoop_wellFormed:
  assumes "tasksWellFormed E svc" and "tasksWellFormed E (svc\<lparr>collectors := nc\<rparr>)"
    and "collectorLoop E cfg ds (svc, nc, w) = (svc', nc', w')"
  shows "tasksWellFormed E (svc'\<lparr>collectors := nc'\<rparr>)"
  using assms
proof (induction ds arbitrary: svc nc w)
  case Nil
  then show ?case by (simp add: collectorLoop_def)
next
  case (Cons d ds)
  obtain s1 n1 w1 where b: "collectorLoopBody E cfg d (svc, nc, w) = (s1, n1, w1)"
    by (cases "collectorLoopBody E cfg d (svc, nc, w)")
  from Cons.prems(3) b have l: "collectorLoop E cfg ds (s1, n1, w1) = (svc', nc', w')"
    by (simp add: collectorLoop_def)
  from collectorLoopBody_frame [OF b] Cons.prems(1) have w1: "tasksWellFormed E s1"
    by (simp add: tasksWellFormed_def)
  from collectorLoopBody_wellFormed [OF Cons.prems(1,2) b] have "tasksWellFormed E (s1\<lparr>collectors := n1\<rparr>)" .
  from Cons.IH [OF w1 this l] show ?case .
qed

lemma reconfigureCapture_wellFormed:
  assumes "tasksWellFormed E svc" and "reconfigureCapture E cfg rcs svc w = (svc', w')"
  shows "tasksWellFormed E svc'"
proof -
  let ?s3 = "(if CaptureDir cfg = [] then
               (if CaptureDir cfg \<noteq> [] then svc\<lparr>captureDir := CaptureDir cfg\<rparr> else svc)
                 \<lparr>captureDir := viamCaptureDotDir E\<rparr>
             else (if CaptureDir cfg \<noteq> [] then svc\<lparr>captureDir := CaptureDir cfg\<rparr> else svc))
            \<lparr>captureDisabled := CaptureDisabled cfg\<rparr>"
  show ?thesis
  proof (cases "CaptureDisabled cfg")
    case True
    with assms(2) have "collectors svc' = []"
      by (auto simp: reconfigureCapture_def Let_def closeCollectors_def split: prod.splits)
    then show ?thesis by (simp add: tasksWellFormed_def)
  next
    case False
    obtain s5 n5 w5 where l: "collectorLoop E cfg rcs (?s3, [], w) = (s5, n5, w5)"
      by (cases "collectorLoop E cfg rcs (?s3, [], w)")
    with assms(2) False
    have s: "svc' = s5\<lparr>collectors := n5, additionalSyncPaths := AdditionalSyncPaths cfg\<rparr>"
      by (simp add: reconfigureCapture_def Let_def split: prod.splits)
    have a: "tasksWellFormed E ?s3" using assms(1) by (simp add: tasksWellFormed_def)
    have b: "tasksWellFormed E (?s3\<lparr>collectors := []\<rparr>)" by (simp add: tasksWellFormed_def)
    from collectorLoop_wellFormed [OF a b l] s show ?thesis by (simp add: tasksWellFormed_def)
  qed
qed

lemma Reconfigure_wellFormed:
  assumes "tasksWellFormed E svc" and "Reconfigure E deps conf svc w = (r, svc', w')"
  shows "tasksWellFormed E svc'"
proof (cases "NativeConfig conf")
  case (Inl err)
  with assms show ?thesis by (simp add: Reconfigure_def)
next
  case (Inr cfg)
  from assms(2) Inr show ?thesis
  proof (cases rule: Reconfigure_cases)
    case nodep
    with assms(1) show ?thesis by simp
  next
    case (rejected c)
    with assms(1) show ?thesis by (simp add: tasksWellFormed_def)
  next
    case (passed c rcs w1 svc2 w2 svc3 w3)
    have "tasksWellFormed E (svc\<lparr>cloudConnSvc := Some c\<rparr>)"
      using assms(1) by (simp add: tasksWellFormed_def)
    from reconfigureCapture_wellFormed [OF this passed(4)] have "tasksWellFormed E svc2" .
    moreover from reconfigureSelectiveSync_frame [OF passed(5)]
      reconfigureSync_sameCapture [OF passed(6)]
    have "collectors svc' = collectors svc2" by (simp add: sameCapture_def)
    ultimately show ?thesis by (simp add: tasksWellFormed_def)
  qed
qed

lemma initialBuiltIn_wellFormed: "tasksWellFormed E (initialBuiltIn E)"
  by (simp add: tasksWellFormed_def initialBuiltIn_def)

text \<open>
  The theorem of C3 at a service with one task, reconfigured with the configuration that
  created it.
\<close>

theorem unchanged_declarations_keep_tasks_witness:
  "collectors (fst (snd (Reconfigure exampleEnv exampleDeps
       \<lparr>ConvertedAttributes = Some (exampleConfig\<lparr>ResourceConfigs := [exampleDeclaration]\<rparr>)\<rparr>
       (initialBuiltIn exampleEnv) exampleWorld)))
   = [(componentMethodMetadataOf exampleEnv exampleDeclaration,
       \<lparr>Collector = 100,
          StoredConfig = resolvedDeclaration exampleDeps
             (exampleConfig\<lparr>ResourceConfigs := [exampleDeclaration]\<rparr>) exampleDeclaration\<rparr>)]
   \<and> map_of (collectors (fst (snd (Reconfigure exampleEnv exampleDeps
       \<lparr>ConvertedAttributes = Some (exampleConfig\<lparr>ResourceConfigs := [exampleDeclaration]\<rparr>)\<rparr>
       (fst (snd (Reconfigure exampleEnv exampleDeps
          \<lparr>ConvertedAttributes = Some (exampleConfig\<lparr>ResourceConfigs := [exampleDeclaration]\<rparr>)\<rparr>
          (initialBuiltIn exampleEnv) exampleWorld)))
       (snd (snd (Reconfigure exampleEnv exampleDeps
          \<lparr>ConvertedAttributes = Some (exampleConfig\<lparr>ResourceConfigs := [exampleDeclaration]\<rparr>)\<rparr>
          (initialBuiltIn exampleEnv) exampleWorld)))))))
     = map_of (collectors (fst (snd (Reconfigure exampleEnv exampleDeps
       \<lparr>ConvertedAttributes = Some (exampleConfig\<lparr>ResourceConfigs := [exampleDeclaration]\<rparr>)\<rparr>
       (initialBuiltIn exampleEnv) exampleWorld))))
   \<and> sameCollectorEvents
       (snd (snd (Reconfigure exampleEnv exampleDeps
       \<lparr>ConvertedAttributes = Some (exampleConfig\<lparr>ResourceConfigs := [exampleDeclaration]\<rparr>)\<rparr>
       (fst (snd (Reconfigure exampleEnv exampleDeps
          \<lparr>ConvertedAttributes = Some (exampleConfig\<lparr>ResourceConfigs := [exampleDeclaration]\<rparr>)\<rparr>
          (initialBuiltIn exampleEnv) exampleWorld)))
       (snd (snd (Reconfigure exampleEnv exampleDeps
          \<lparr>ConvertedAttributes = Some (exampleConfig\<lparr>ResourceConfigs := [exampleDeclaration]\<rparr>)\<rparr>
          (initialBuiltIn exampleEnv) exampleWorld))))))
       (snd (snd (Reconfigure exampleEnv exampleDeps
          \<lparr>ConvertedAttributes = Some (exampleConfig\<lparr>ResourceConfigs := [exampleDeclaration]\<rparr>)\<rparr>
          (initialBuiltIn exampleEnv) exampleWorld)))"
proof -
  let ?cfg = "exampleConfig\<lparr>ResourceConfigs := [exampleDeclaration]\<rparr>"
  let ?conf = "\<lparr>ConvertedAttributes = Some ?cfg\<rparr>"
  let ?step1 = "Reconfigure exampleEnv exampleDeps ?conf (initialBuiltIn exampleEnv) exampleWorld"
  let ?svc1 = "fst (snd ?step1)"
  let ?w1 = "snd (snd ?step1)"
  let ?step2 = "Reconfigure exampleEnv exampleDeps ?conf ?svc1 ?w1"
  let ?md = "componentMethodMetadataOf exampleEnv exampleDeclaration"
  let ?cc = "\<lparr>Collector = 100, StoredConfig = resolvedDeclaration exampleDeps ?cfg exampleDeclaration\<rparr>"
  have cs: "collectors ?svc1 = [(?md, ?cc)]"
    by (simp add: run_defs example_defs resolvedDeclaration_def)
  have h1: "NativeConfig ?conf = Inr ?cfg" by (simp add: NativeConfig_def)
  have h2: "\<not> CaptureDisabled ?cfg" by (simp add: exampleConfig_def)
  have h3: "tasksWellFormed exampleEnv ?svc1"
    by (rule Reconfigure_wellFormed [OF initialBuiltIn_wellFormed, of exampleEnv exampleDeps ?conf
          exampleWorld "fst ?step1" ?svc1 ?w1]) simp
  have h4: "\<forall>d \<in> set (ResourceConfigs ?cfg).
           Lookup exampleDeps (CfgName d) \<noteq> None
           \<and> (\<exists>cc. map_of (collectors ?svc1) (componentMethodMetadataOf exampleEnv d) = Some cc
                    \<and> Equals (StoredConfig cc) (resolvedDeclaration exampleDeps ?cfg d))"
    unfolding cs by (simp add: Equals_def exampleDeps_def exampleDeclaration_def)
  have h5: "\<forall>md \<in> fst ` set (collectors ?svc1).
           \<exists>d \<in> set (ResourceConfigs ?cfg). componentMethodMetadataOf exampleEnv d = md"
    unfolding cs by simp
  have h6: "?step2 = (fst ?step2, fst (snd ?step2), snd (snd ?step2))" by simp
  from unchanged_declarations_keep_tasks [OF h1 h2 h3 h4 h5 h6] cs show ?thesis by simp
qed

text \<open>
  Claim C3 as stated fails: with the declarations unchanged and capture disabled in the
  new configuration, the task is closed and the task map is empty.
\<close>

theorem disabling_capture_closes_unchanged_tasks:
  "collectors (fst (snd (Reconfigure exampleEnv exampleDeps
       \<lparr>ConvertedAttributes = Some (exampleConfig\<lparr>ResourceConfigs := [exampleDeclaration]\<rparr>)\<rparr>
       (initialBuiltIn exampleEnv) exampleWorld))) \<noteq> []
   \<and> closedCollectors (snd (snd (Reconfigure exampleEnv exampleDeps
       \<lparr>ConvertedAttributes = Some (exampleConfig\<lparr>ResourceConfigs := [exampleDeclaration]\<rparr>)\<rparr>
       (initialBuiltIn exampleEnv) exampleWorld))) = []
   \<and> collectors (fst (snd (Reconfigure exampleEnv exampleDeps
       \<lparr>ConvertedAttributes = Some (exampleConfig\<lparr>ResourceConfigs := [exampleDeclaration],
                                                  CaptureDisabled := True\<rparr>)\<rparr>
       (fst (snd (Reconfigure exampleEnv exampleDeps
          \<lparr>ConvertedAttributes = Some (exampleConfig\<lparr>ResourceConfigs := [exampleDeclaration]\<rparr>)\<rparr>
          (initialBuiltIn exampleEnv) exampleWorld)))
       (snd (snd (Reconfigure exampleEnv exampleDeps
          \<lparr>ConvertedAttributes = Some (exampleConfig\<lparr>ResourceConfigs := [exampleDeclaration]\<rparr>)\<rparr>
          (initialBuiltIn exampleEnv) exampleWorld)))))) = []
   \<and> closedCollectors (snd (snd (Reconfigure exampleEnv exampleDeps
       \<lparr>ConvertedAttributes = Some (exampleConfig\<lparr>ResourceConfigs := [exampleDeclaration],
                                                  CaptureDisabled := True\<rparr>)\<rparr>
       (fst (snd (Reconfigure exampleEnv exampleDeps
          \<lparr>ConvertedAttributes = Some (exampleConfig\<lparr>ResourceConfigs := [exampleDeclaration]\<rparr>)\<rparr>
          (initialBuiltIn exampleEnv) exampleWorld)))
       (snd (snd (Reconfigure exampleEnv exampleDeps
          \<lparr>ConvertedAttributes = Some (exampleConfig\<lparr>ResourceConfigs := [exampleDeclaration]\<rparr>)\<rparr>
          (initialBuiltIn exampleEnv) exampleWorld)))))) = [100]"
  by (simp add: run_defs example_defs)

end
